theory Spec2Isabelle
  imports Main "HOL-Library.AList" "HOL-Library.Multiset"
begin

section \<open>Entity model (hdpm/core\_structures.py)\<close>

text \<open>
  A \<^verbatim>\<open>datetime.datetime\<close> is a point on a time line, counted in microseconds (the
  resolution of the type), together with the flag that tells an offset-aware value from
  an offset-naive one. Python orders two datetimes of the same kind by their instant and
  raises \<^verbatim>\<open>TypeError\<close> when asked to order a naive one against an aware one.
\<close>

record datetime =
  instant :: int
  aware :: bool

text \<open>
  The three entity classes. Their Python attribute \<^verbatim>\<open>id\<close> and \<^verbatim>\<open>content\<close> carry a prefix
  here, since record fields share one name space.
\<close>

record AtomicEvidenceCard =
  card_id :: string
  card_content :: string
  agent_type :: string
  timestamp :: datetime

record PolicyPathway =
  pathway_id :: string
  evidence_card_ids :: "string list"
  linked_insight_id :: "string option"

record Insight =
  insight_id :: string
  content :: string
  source_pathway_id :: string

text \<open>
  A Python \<^verbatim>\<open>dict\<close> keeps its keys in insertion order: assigning to a key that is present
  replaces the value where it stands, assigning to a new key appends it. That is
  \<^const>\<open>AList.update\<close> on an association list, read with \<^const>\<open>map_of\<close>.
  The entities are held by value: a stored pathway is reached through its key only. This
  agrees with the Python objects as long as an entity's id is never reassigned, so that
  one pathway object stands under one key of a store.
\<close>

type_synonym 'v dict = "(string \<times> 'v) list"

record MemoryStore =
  insights :: "Insight dict"
  pathways :: "PolicyPathway dict"
  evidence :: "AtomicEvidenceCard dict"

datatype py_error = TypeError

section \<open>MemoryStore\<close>

definition empty_store :: MemoryStore where
  "empty_store = \<lparr>insights = [], pathways = [], evidence = []\<rparr>"

definition add_evidence_card :: "MemoryStore \<Rightarrow> AtomicEvidenceCard \<Rightarrow> MemoryStore" where
  "add_evidence_card s ec = s\<lparr>evidence := AList.update (card_id ec) ec (evidence s)\<rparr>"

definition add_policy_pathway :: "MemoryStore \<Rightarrow> PolicyPathway \<Rightarrow> MemoryStore" where
  "add_policy_pathway s pathway =
     s\<lparr>pathways := AList.update (pathway_id pathway) pathway (pathways s)\<rparr>"

text \<open>
  \<^verbatim>\<open>add_insight\<close> stores the insight, then either writes the link field of the pathway
  found under \<^verbatim>\<open>insight.source_pathway_id\<close> or prints one warning line. The state it
  leaves and the lines it prints are two functions over the same two branches.
\<close>

definition add_insight :: "MemoryStore \<Rightarrow> Insight \<Rightarrow> MemoryStore" where
  "add_insight s insight =
     (let s1 = s\<lparr>insights := AList.update (insight_id insight) insight (insights s)\<rparr> in
      case map_of (pathways s1) (source_pathway_id insight) of
        Some pathway \<Rightarrow>
          s1\<lparr>pathways := AList.update (source_pathway_id insight)
                 (pathway\<lparr>linked_insight_id := Some (insight_id insight)\<rparr>) (pathways s1)\<rparr>
      | None \<Rightarrow> s1)"

definition add_insight_printed :: "MemoryStore \<Rightarrow> Insight \<Rightarrow> string list" where
  "add_insight_printed s insight =
     (case map_of (pathways s) (source_pathway_id insight) of
        Some pathway \<Rightarrow> []
      | None \<Rightarrow>
          [''Warning: Source pathway '' @ source_pathway_id insight @
           '' not found in this store for insight '' @ insight_id insight @
           '' during linking.''])"

definition get_evidence_card :: "MemoryStore \<Rightarrow> string \<Rightarrow> AtomicEvidenceCard option" where
  "get_evidence_card s cid = map_of (evidence s) cid"

definition get_policy_pathway :: "MemoryStore \<Rightarrow> string \<Rightarrow> PolicyPathway option" where
  "get_policy_pathway s pid = map_of (pathways s) pid"

definition get_insight :: "MemoryStore \<Rightarrow> string \<Rightarrow> Insight option" where
  "get_insight s iid = map_of (insights s) iid"

text \<open>
  \<^verbatim>\<open>sorted(cards, key=lambda c: c.timestamp)\<close>: a stable sort by the instant when the
  timestamps are all naive or all aware. A list that holds both kinds makes every
  comparison sort compare a naive with an aware timestamp at some point, which raises.
\<close>

definition comparable :: "AtomicEvidenceCard list \<Rightarrow> bool" where
  "comparable cards =
     (list_all (\<lambda>c. aware (timestamp c)) cards \<or> list_all (\<lambda>c. \<not> aware (timestamp c)) cards)"

definition sorted_by_timestamp ::
  "AtomicEvidenceCard list \<Rightarrow> py_error + AtomicEvidenceCard list" where
  "sorted_by_timestamp cards =
     (if comparable cards then Inr (sort_key (\<lambda>c. instant (timestamp c)) cards)
      else Inl TypeError)"

text \<open>The loop of \<^verbatim>\<open>get_evidence_cards_for_pathway\<close>: the cards found, in the order of the ids.\<close>

fun resolve_cards :: "MemoryStore \<Rightarrow> string list \<Rightarrow> AtomicEvidenceCard list" where
  "resolve_cards s [] = []"
| "resolve_cards s (cid # rest) =
     (case get_evidence_card s cid of
        Some ec \<Rightarrow> ec # resolve_cards s rest
      | None \<Rightarrow> resolve_cards s rest)"

fun resolve_cards_printed :: "MemoryStore \<Rightarrow> string \<Rightarrow> string list \<Rightarrow> string list" where
  "resolve_cards_printed s pid [] = []"
| "resolve_cards_printed s pid (cid # rest) =
     (case get_evidence_card s cid of
        Some ec \<Rightarrow> resolve_cards_printed s pid rest
      | None \<Rightarrow>
          (''Warning: Evidence card with ID '' @ [CHR 0x27] @ cid @ [CHR 0x27] @
           '' referenced in pathway '' @ [CHR 0x27] @ pid @ [CHR 0x27] @
           '' not found in memory store.'') # resolve_cards_printed s pid rest)"

definition get_evidence_cards_for_pathway ::
  "MemoryStore \<Rightarrow> string \<Rightarrow> py_error + AtomicEvidenceCard list" where
  "get_evidence_cards_for_pathway s pid =
     (case get_policy_pathway s pid of
        None \<Rightarrow> Inr []
      | Some pathway \<Rightarrow> sorted_by_timestamp (resolve_cards s (evidence_card_ids pathway)))"

definition get_evidence_cards_for_pathway_printed :: "MemoryStore \<Rightarrow> string \<Rightarrow> string list" where
  "get_evidence_cards_for_pathway_printed s pid =
     (case get_policy_pathway s pid of
        None \<Rightarrow> []
      | Some pathway \<Rightarrow> resolve_cards_printed s pid (evidence_card_ids pathway))"

section \<open>Strings\<close>

text \<open>
  A Python \<^verbatim>\<open>str\<close> is the list of its characters. What the text operations take from
  Python's Unicode tables is a parameter: \<^verbatim>\<open>str.lower\<close> (a function on whole strings, since
  lower-casing is not character by character for every letter), the classes \<^verbatim>\<open>\w\<close> and
  \<^verbatim>\<open>\s\<close> of a regular expression over \<^verbatim>\<open>str\<close>, and the characters at which
  \<^verbatim>\<open>str.split()\<close> splits. Nothing is assumed about which characters are letters, digits or
  white space.
\<close>

record unicode =
  str_lower :: "string \<Rightarrow> string"
  re_word :: "char \<Rightarrow> bool"
  re_space :: "char \<Rightarrow> bool"
  str_isspace :: "char \<Rightarrow> bool"

text \<open>
  \<^verbatim>\<open>s.split()\<close>: a scan that collects the characters of the current piece and closes a
  non-empty piece at every separator and at the end.
\<close>

fun split_whitespace :: "(char \<Rightarrow> bool) \<Rightarrow> string \<Rightarrow> string \<Rightarrow> string list" where
  "split_whitespace sep cur [] = (if cur = [] then [] else [cur])"
| "split_whitespace sep cur (c # cs) =
     (if sep c then (if cur = [] then split_whitespace sep [] cs
                     else cur # split_whitespace sep [] cs)
      else split_whitespace sep (cur @ [c]) cs)"

definition py_split :: "unicode \<Rightarrow> string \<Rightarrow> string list" where
  "py_split U s = split_whitespace (str_isspace U) [] s"

text \<open>\<^verbatim>\<open>s.split(" ")\<close>: the pieces between single blanks, empty pieces included.\<close>

fun split_at :: "char \<Rightarrow> string \<Rightarrow> string \<Rightarrow> string list" where
  "split_at d cur [] = [cur]"
| "split_at d cur (c # cs) =
     (if c = d then cur # split_at d [] cs else split_at d (cur @ [c]) cs)"

definition py_split_blank :: "string \<Rightarrow> string list" where
  "py_split_blank s = split_at (CHR '' '') [] s"

text \<open>\<^verbatim>\<open>sub in s\<close> on strings: \<^verbatim>\<open>sub\<close> occurs in \<^verbatim>\<open>s\<close> as a contiguous piece.\<close>

fun py_in :: "string \<Rightarrow> string \<Rightarrow> bool" where
  "py_in sub [] = (sub = [])"
| "py_in sub (c # cs) = (take (length sub) (c # cs) = sub \<or> py_in sub cs)"

fun py_join :: "string \<Rightarrow> string list \<Rightarrow> string" where
  "py_join sep [] = []"
| "py_join sep [x] = x"
| "py_join sep (x # y # ys) = x @ sep @ py_join sep (y # ys)"

text \<open>The decimal numeral that an f-string prints for a natural number.\<close>

fun str_nat :: "nat \<Rightarrow> string" where
  "str_nat n =
     (if n < 10 then [''0123456789'' ! n]
      else str_nat (n div 10) @ [''0123456789'' ! (n mod 10)])"

declare str_nat.simps [simp del]

text \<open>\<^verbatim>\<open>xs[:k]\<close>: the first \<open>k\<close> elements, or all but the last \<open>-k\<close> when \<open>k\<close> is negative.\<close>

definition slice_to :: "int \<Rightarrow> 'a list \<Rightarrow> 'a list" where
  "slice_to k xs = (if 0 \<le> k then take (nat k) xs else take (length xs - nat (- k)) xs)"

section \<open>HDPM: retrieval\<close>

record HDPM =
  positive_memory :: MemoryStore
  negative_memory :: MemoryStore

text \<open>
  \<^verbatim>\<open>set(re.sub(r'[^\w\s-]', '', text.lower()).replace('-', ' ').split())\<close>, the expression
  that the retrieval applies to the query and to the content of every insight: the
  substitution keeps the characters of the classes \<^verbatim>\<open>\w\<close> and \<^verbatim>\<open>\s\<close> and the hyphen.
\<close>

definition re_sub_strip :: "unicode \<Rightarrow> string \<Rightarrow> string" where
  "re_sub_strip U s = filter (\<lambda>c. re_word U c \<or> re_space U c \<or> c = CHR ''-'') s"

definition replace_hyphens :: "string \<Rightarrow> string" where
  "replace_hyphens s = map (\<lambda>c. if c = CHR ''-'' then CHR '' '' else c) s"

definition terms_of :: "unicode \<Rightarrow> string \<Rightarrow> string set" where
  "terms_of U text = set (py_split U (replace_hyphens (re_sub_strip U (str_lower U text))))"

text \<open>The scoring loop over \<^verbatim>\<open>memory_store.insights.items()\<close>.\<close>

fun score_insights :: "unicode \<Rightarrow> string set \<Rightarrow> Insight dict \<Rightarrow> (nat \<times> Insight) list" where
  "score_insights U query_terms [] = []"
| "score_insights U query_terms ((iid, insight) # rest) =
     (let insight_terms = terms_of U (content insight);
          common_terms = query_terms \<inter> insight_terms;
          score = card common_terms
      in if 0 < score then (score, insight) # score_insights U query_terms rest
         else score_insights U query_terms rest)"

text \<open>
  \<^verbatim>\<open>xs.sort(key=f, reverse=True)\<close> as CPython runs it: the list is reversed, sorted by a
  stable ascending sort, and reversed again.
\<close>

definition sort_reverse :: "('a \<Rightarrow> nat) \<Rightarrow> 'a list \<Rightarrow> 'a list" where
  "sort_reverse f xs = rev (sort_key f (rev xs))"

definition top_insights :: "unicode \<Rightarrow> string \<Rightarrow> MemoryStore \<Rightarrow> int \<Rightarrow> Insight list" where
  "top_insights U query s top_k =
     (let query_terms = terms_of U query;
          scored_insights = score_insights U query_terms (insights s);
          scored_insights = sort_reverse fst scored_insights
      in map snd (slice_to top_k scored_insights))"

text \<open>The loop that resolves each top insight to its pathway, and the warnings it prints.\<close>

fun resolve_pathways :: "MemoryStore \<Rightarrow> Insight list \<Rightarrow> Insight list \<times> PolicyPathway list" where
  "resolve_pathways s [] = ([], [])"
| "resolve_pathways s (insight # rest) =
     (case get_policy_pathway s (source_pathway_id insight) of
        Some pathway \<Rightarrow>
          (insight # fst (resolve_pathways s rest), pathway # snd (resolve_pathways s rest))
      | None \<Rightarrow> resolve_pathways s rest)"

fun resolve_pathways_printed :: "MemoryStore \<Rightarrow> Insight list \<Rightarrow> string list" where
  "resolve_pathways_printed s [] = []"
| "resolve_pathways_printed s (insight # rest) =
     (case get_policy_pathway s (source_pathway_id insight) of
        Some pathway \<Rightarrow> resolve_pathways_printed s rest
      | None \<Rightarrow>
          (''Warning: Pathway ID '' @ source_pathway_id insight @ '' for insight '' @
           insight_id insight @ '' not found in store.'') # resolve_pathways_printed s rest)"

definition retrieve_relevant_items_from_store ::
  "unicode \<Rightarrow> string \<Rightarrow> MemoryStore \<Rightarrow> int \<Rightarrow> Insight list \<times> PolicyPathway list" where
  "retrieve_relevant_items_from_store U query s top_k =
     (if top_k \<le> 0 then ([], [])
      else resolve_pathways s (top_insights U query s top_k))"

definition retrieve_relevant_items_from_store_printed ::
  "unicode \<Rightarrow> string \<Rightarrow> MemoryStore \<Rightarrow> int \<Rightarrow> string list" where
  "retrieve_relevant_items_from_store_printed U query s top_k =
     (if top_k \<le> 0 then []
      else resolve_pathways_printed s (top_insights U query s top_k))"

definition global_co_retrieval ::
  "unicode \<Rightarrow> HDPM \<Rightarrow> string \<Rightarrow> int \<Rightarrow>
   Insight list \<times> PolicyPathway list \<times> Insight list \<times> PolicyPathway list" where
  "global_co_retrieval U h query top_k =
     (let (pos_insights, pos_pathways) =
            retrieve_relevant_items_from_store U query (positive_memory h) top_k;
          (neg_insights, neg_pathways) =
            retrieve_relevant_items_from_store U query (negative_memory h) top_k
      in (pos_insights, pos_pathways, neg_insights, neg_pathways))"

section \<open>Serialization of a store\<close>

text \<open>
  The dictionaries that \<^verbatim>\<open>to_dict\<close> builds, one record per shape, the fields named after
  the keys. The key \<^verbatim>\<open>"timestamp"\<close> holds the ISO-8601 text of the datetime, which
  \<^verbatim>\<open>fromisoformat\<close> reads back to the same instant and kind; the field is kept as the
  datetime that the text denotes.
\<close>

record CardDict =
  d_card_id :: string
  d_card_content :: string
  d_agent_type :: string
  d_timestamp :: datetime

record PathwayDict =
  d_pathway_id :: string
  d_evidence_card_ids :: "string list"
  d_linked_insight_id :: "string option"

record InsightDict =
  d_insight_id :: string
  d_content :: string
  d_source_pathway_id :: string

record StoreDict =
  d_insights :: "InsightDict dict"
  d_pathways :: "PathwayDict dict"
  d_evidence :: "CardDict dict"

definition card_to_dict :: "AtomicEvidenceCard \<Rightarrow> CardDict" where
  "card_to_dict c =
     \<lparr>d_card_id = card_id c, d_card_content = card_content c,
      d_agent_type = agent_type c, d_timestamp = timestamp c\<rparr>"

definition card_from_dict :: "CardDict \<Rightarrow> AtomicEvidenceCard" where
  "card_from_dict d =
     \<lparr>card_id = d_card_id d, card_content = d_card_content d,
      agent_type = d_agent_type d, timestamp = d_timestamp d\<rparr>"

definition pathway_to_dict :: "PolicyPathway \<Rightarrow> PathwayDict" where
  "pathway_to_dict p =
     \<lparr>d_pathway_id = pathway_id p, d_evidence_card_ids = evidence_card_ids p,
      d_linked_insight_id = linked_insight_id p\<rparr>"

definition pathway_from_dict :: "PathwayDict \<Rightarrow> PolicyPathway" where
  "pathway_from_dict d =
     \<lparr>pathway_id = d_pathway_id d, evidence_card_ids = d_evidence_card_ids d,
      linked_insight_id = d_linked_insight_id d\<rparr>"

definition insight_to_dict :: "Insight \<Rightarrow> InsightDict" where
  "insight_to_dict i =
     \<lparr>d_insight_id = insight_id i, d_content = content i,
      d_source_pathway_id = source_pathway_id i\<rparr>"

definition insight_from_dict :: "InsightDict \<Rightarrow> Insight" where
  "insight_from_dict d =
     \<lparr>insight_id = d_insight_id d, content = d_content d,
      source_pathway_id = d_source_pathway_id d\<rparr>"

definition to_dict :: "MemoryStore \<Rightarrow> StoreDict" where
  "to_dict s =
     \<lparr>d_insights = map (\<lambda>(k, insight). (k, insight_to_dict insight)) (insights s),
      d_pathways = map (\<lambda>(k, pathway). (k, pathway_to_dict pathway)) (pathways s),
      d_evidence = map (\<lambda>(k, ec). (k, card_to_dict ec)) (evidence s)\<rparr>"

text \<open>
  \<^verbatim>\<open>from_dict\<close>: three loops over the items of the three sections, evidence first, then
  pathways, then insights, each adding to the store under construction.
\<close>

definition from_dict :: "StoreDict \<Rightarrow> MemoryStore" where
  "from_dict data =
     (let store = empty_store;
          store = foldl (\<lambda>st (k, card_data). add_evidence_card st (card_from_dict card_data))
                    store (d_evidence data);
          store = foldl (\<lambda>st (k, pathway_data). add_policy_pathway st (pathway_from_dict pathway_data))
                    store (d_pathways data);
          store = foldl (\<lambda>st (k, insight_data). add_insight st (insight_from_dict insight_data))
                    store (d_insights data)
      in store)"

section \<open>ReflectAgent (hdpm/memory\_processing.py)\<close>

text \<open>
  A step of a trajectory: a dictionary with the optional keys \<^verbatim>\<open>agent_type\<close>,
  \<^verbatim>\<open>action_content\<close> and \<^verbatim>\<open>timestamp\<close> (\<open>None\<close>: the key is missing), or a value that is
  no dictionary, on which \<^verbatim>\<open>event.get\<close> raises.
\<close>

datatype step =
  Step (step_agent_type: "string option") (step_action_content: "string option")
       (step_timestamp: "string option")
| Malformed

text \<open>
  What the pipeline takes from the Python library and the running process, as parameters:
  the Unicode tables, the \<open>n\<close>-th UUID drawn, the \<open>n\<close>-th reading of the wall clock (in microseconds),
  \<^verbatim>\<open>datetime.fromisoformat\<close> (\<open>None\<close>: it raises), \<^verbatim>\<open>str\<close> of a trajectory step, the order in
  which a set built from a list is iterated, and the index that \<^verbatim>\<open>random.choice\<close> draws
  from a generator state for a sequence of a given length, with the state it leaves.
\<close>

record pylib =
  tables :: unicode
  uuid4 :: "nat \<Rightarrow> string"
  clock :: "nat \<Rightarrow> int"
  fromisoformat :: "string \<Rightarrow> datetime option"
  str_of_step :: "step \<Rightarrow> string"
  set_order :: "string list \<Rightarrow> string list"
  randbelow :: "nat \<Rightarrow> nat \<Rightarrow> nat \<times> nat"

record world =
  uuid_count :: nat
  clock_count :: nat
  rng_state :: nat

definition draw_uuid :: "pylib \<Rightarrow> world \<Rightarrow> string \<times> world" where
  "draw_uuid L w = (uuid4 L (uuid_count w), w\<lparr>uuid_count := Suc (uuid_count w)\<rparr>)"

definition datetime_now :: "pylib \<Rightarrow> world \<Rightarrow> datetime \<times> world" where
  "datetime_now L w =
     (\<lparr>instant = clock L (clock_count w), aware = False\<rparr>,
      w\<lparr>clock_count := Suc (clock_count w)\<rparr>)"

definition minus_seconds :: "datetime \<Rightarrow> int \<Rightarrow> datetime" where
  "minus_seconds t k = t\<lparr>instant := instant t - 1000000 * k\<rparr>"

text \<open>The constructor of \<^verbatim>\<open>AtomicEvidenceCard\<close>, called with a timestamp and without an id.\<close>

definition new_card ::
  "pylib \<Rightarrow> string \<Rightarrow> string \<Rightarrow> datetime \<Rightarrow> world \<Rightarrow> AtomicEvidenceCard \<times> world" where
  "new_card L text agent t w =
     (let (u, w1) = draw_uuid L w
      in (\<lparr>card_id = ''aec_'' @ u, card_content = text, agent_type = agent, timestamp = t\<rparr>, w1))"

text \<open>
  \<^verbatim>\<open>datetime.datetime.now() - datetime.timedelta(seconds=len(trajectory)-i)\<close>, with \<open>n\<close> the
  length of the trajectory and \<open>i\<close> the index of the step.
\<close>

definition synthetic_timestamp :: "pylib \<Rightarrow> nat \<Rightarrow> nat \<Rightarrow> world \<Rightarrow> datetime \<times> world" where
  "synthetic_timestamp L n i w =
     (let (t, w1) = datetime_now L w in (minus_seconds t (int n - int i), w1))"

text \<open>The \<^verbatim>\<open>except\<close> branch of the loop of \<^verbatim>\<open>atomize\<close>.\<close>

definition error_card :: "pylib \<Rightarrow> nat \<Rightarrow> nat \<Rightarrow> step \<Rightarrow> world \<Rightarrow> AtomicEvidenceCard \<times> world" where
  "error_card L n i event w =
     (let (t, w1) = synthetic_timestamp L n i w
      in new_card L (''Error parsing event: '' @ take 100 (str_of_step L event)) ''SystemError'' t w1)"

text \<open>One round of the loop of \<^verbatim>\<open>atomize\<close>: the \<^verbatim>\<open>try\<close> block, and the \<^verbatim>\<open>except\<close> branch where it raises.\<close>

fun atomize_event :: "pylib \<Rightarrow> nat \<Rightarrow> nat \<Rightarrow> step \<Rightarrow> world \<Rightarrow> AtomicEvidenceCard \<times> world" where
  "atomize_event L n i Malformed w = error_card L n i Malformed w"
| "atomize_event L n i (Step agent action ts) w =
     (let text = (case action of Some a \<Rightarrow> a
                  | None \<Rightarrow> ''Step '' @ str_nat (i + 1) @ '' content missing'');
          agent_type = (case agent of Some a \<Rightarrow> a | None \<Rightarrow> ''UnknownAgent'')
      in case ts of
           None \<Rightarrow> (let (t, w1) = synthetic_timestamp L n i w in new_card L text agent_type t w1)
         | Some timestamp_str \<Rightarrow>
             if timestamp_str = [] then
               (let (t, w1) = synthetic_timestamp L n i w in new_card L text agent_type t w1)
             else (case fromisoformat L timestamp_str of
                     Some t \<Rightarrow> new_card L text agent_type t w
                   | None \<Rightarrow> error_card L n i (Step agent action ts) w))"

fun atomize_loop ::
  "pylib \<Rightarrow> nat \<Rightarrow> nat \<Rightarrow> step list \<Rightarrow> world \<Rightarrow> AtomicEvidenceCard list \<times> world" where
  "atomize_loop L n i [] w = ([], w)"
| "atomize_loop L n i (event # rest) w =
     (let (ec, w1) = atomize_event L n i event w;
          (cards, w2) = atomize_loop L n (Suc i) rest w1
      in (ec # cards, w2))"

definition atomize ::
  "pylib \<Rightarrow> step list \<Rightarrow> world \<Rightarrow> (py_error + AtomicEvidenceCard list) \<times> world" where
  "atomize L trajectory w =
     (let (evidence_cards, w1) = atomize_loop L (length trajectory) 0 trajectory w
      in (sorted_by_timestamp evidence_cards, w1))"

definition new_pathway :: "pylib \<Rightarrow> string list \<Rightarrow> world \<Rightarrow> PolicyPathway \<times> world" where
  "new_pathway L ids w =
     (let (u, w1) = draw_uuid L w
      in (\<lparr>pathway_id = ''pp_'' @ u, evidence_card_ids = ids, linked_insight_id = None\<rparr>, w1))"

definition serialize ::
  "pylib \<Rightarrow> AtomicEvidenceCard list \<Rightarrow> world \<Rightarrow> (py_error + PolicyPathway) \<times> world" where
  "serialize L evidence_cards w =
     (if evidence_cards = [] then (let (p, w1) = new_pathway L [] w in (Inr p, w1))
      else (case sorted_by_timestamp evidence_cards of
              Inl e \<Rightarrow> (Inl e, w)
            | Inr sorted_cards \<Rightarrow>
                (let (p, w1) = new_pathway L (map card_id sorted_cards) w in (Inr p, w1))))"

text \<open>The four lists that the keyword strategy collects, and the loop that fills them.\<close>

record keyword_lists =
  kw_success :: "string list"
  kw_failure :: "string list"
  kw_tool_used :: "string list"
  kw_critical_feedback :: "string list"

definition scan_card :: "pylib \<Rightarrow> AtomicEvidenceCard \<Rightarrow> keyword_lists \<Rightarrow> keyword_lists" where
  "scan_card L c kw =
     (let low = str_lower (tables L) (card_content c);
          kw1 = (if py_in ''success'' low \<or> py_in ''good'' low \<or> py_in ''resolved'' low
                 then kw\<lparr>kw_success := kw_success kw @ [card_content c]\<rparr> else kw);
          kw2 = (if py_in ''fail'' low \<or> py_in ''error'' low \<or> py_in ''issue'' low
                 then kw1\<lparr>kw_failure := kw_failure kw1 @ [card_content c]\<rparr> else kw1);
          kw3 = (if agent_type c = ''Assistant'' then
                   (let parts = py_split_blank (card_content c)
                    in if 1 < length parts \<and>
                          (py_in ''tool'' (str_lower (tables L) (parts ! 0)) \<or>
                           py_in ''used'' (str_lower (tables L) (parts ! 0)))
                       then kw2\<lparr>kw_tool_used := kw_tool_used kw2 @ [parts ! 1]\<rparr> else kw2)
                 else kw2);
          kw4 = (if agent_type c = ''Critic'' \<and>
                    (py_in ''warning'' low \<or> py_in ''problem'' low \<or> py_in ''bad'' low)
                 then kw3\<lparr>kw_critical_feedback := kw_critical_feedback kw3 @ [card_content c]\<rparr>
                 else kw3)
      in kw4)"

fun scan_cards :: "pylib \<Rightarrow> AtomicEvidenceCard list \<Rightarrow> keyword_lists \<Rightarrow> keyword_lists" where
  "scan_cards L [] kw = kw"
| "scan_cards L (c # rest) kw = scan_cards L rest (scan_card L c kw)"

text \<open>The text that the keyword strategy composes from a non-empty list of cards.\<close>

definition compose_keywords :: "pylib \<Rightarrow> AtomicEvidenceCard list \<Rightarrow> int \<Rightarrow> string" where
  "compose_keywords L pathway_cards result =
     (let kw = scan_cards L pathway_cards
                 \<lparr>kw_success = [], kw_failure = [], kw_tool_used = [], kw_critical_feedback = []\<rparr>;
          outcome_prefix = (if result = 1 then ''Success Principle: '' else ''Failure Trap: '');
          planner_card_content =
            (case find (\<lambda>c. agent_type c = ''Planner'') pathway_cards of
               Some first_planner_card \<Rightarrow> ''Context: '' @ card_content first_planner_card @ ''. ''
             | None \<Rightarrow> []);
          t0 = outcome_prefix @ planner_card_content;
          t1 = (if result = 1 \<and> kw_success kw \<noteq> [] then
                  t0 @ ''Key success factors: '' @ py_join ''; '' (take 1 (kw_success kw)) @ ''. ''
                else if result = - 1 \<and> kw_failure kw \<noteq> [] then
                  t0 @ ''Key failure points: '' @ py_join ''; '' (take 1 (kw_failure kw)) @ ''. ''
                else t0);
          t2 = (if kw_tool_used kw \<noteq> [] then
                  t1 @ ''Tools of note: '' @ py_join '', '' (take 1 (set_order L (kw_tool_used kw))) @ ''. ''
                else t1);
          t3 = (if result = - 1 \<and> kw_critical_feedback kw \<noteq> [] then
                  t2 @ ''Critical feedback: '' @ py_join ''; '' (take 1 (kw_critical_feedback kw)) @ ''. ''
                else t2);
          initial_meaningful_length = length outcome_prefix + length planner_card_content;
          t4 = (if length t3 \<le> initial_meaningful_length + 5 then
                  (if pathway_cards = [] then t3 @ ''General pathway recorded (no cards).''
                   else if kw_success kw = [] \<and> kw_failure kw = [] \<and> kw_tool_used kw = [] \<and>
                           kw_critical_feedback kw = [] then
                     t3 @ ''General observation from path. First step: '' @
                       take 50 (card_content (pathway_cards ! 0)) @ ''...''
                   else t3 @ ''Summary based on '' @ str_nat (length pathway_cards) @ '' steps.'')
                else t3)
      in take 300 t4)"

definition distill_insight_content_simple_keywords ::
  "pylib \<Rightarrow> PolicyPathway \<Rightarrow> MemoryStore \<Rightarrow> int \<Rightarrow> py_error + string" where
  "distill_insight_content_simple_keywords L pathway memory_store result =
     (case get_evidence_cards_for_pathway memory_store (pathway_id pathway) of
        Inl e \<Rightarrow> Inl e
      | Inr pathway_cards \<Rightarrow>
          if pathway_cards = [] then
            Inr ''No evidence cards found for this pathway to distill insight.''
          else Inr (compose_keywords L pathway_cards result))"

text \<open>
  The random-pick strategy. \<^verbatim>\<open>random.choice(cards)\<close> draws an index below the length from
  the generator and moves the generator on; the index is reduced modulo the length, which
  changes nothing for a generator that keeps below the bound, as Python's does.
\<close>

definition distill_insight_content_random_choice ::
  "pylib \<Rightarrow> PolicyPathway \<Rightarrow> MemoryStore \<Rightarrow> int \<Rightarrow> world \<Rightarrow> (py_error + string) \<times> world" where
  "distill_insight_content_random_choice L pathway memory_store result w =
     (case get_evidence_cards_for_pathway memory_store (pathway_id pathway) of
        Inl e \<Rightarrow> (Inl e, w)
      | Inr pathway_cards \<Rightarrow>
          if pathway_cards = [] then (Inr ''No cards in pathway to distill insight from.'', w)
          else
            (let (k, g) = randbelow L (rng_state w) (length pathway_cards);
                 chosen_card = pathway_cards ! (k mod length pathway_cards);
                 outcome_prefix = (if result = 1 then ''Success Principle (random pick): ''
                                   else ''Failure Trap (random pick): '')
             in (Inr (outcome_prefix @ take 150 (card_content chosen_card)), w\<lparr>rng_state := g\<rparr>)))"

text \<open>\<^verbatim>\<open>distill\<close>, with the agent's \<^verbatim>\<open>llm_simulation_mode\<close> as its first argument after the library.\<close>

definition distill ::
  "pylib \<Rightarrow> string \<Rightarrow> PolicyPathway \<Rightarrow> MemoryStore \<Rightarrow> int \<Rightarrow> world \<Rightarrow> (py_error + Insight) \<times> world" where
  "distill L llm_simulation_mode policy_pathway memory_store result w =
     (let (text, w1) =
            (if llm_simulation_mode = ''simple_keywords'' then
               (distill_insight_content_simple_keywords L policy_pathway memory_store result, w)
             else if llm_simulation_mode = ''random_choice'' then
               distill_insight_content_random_choice L policy_pathway memory_store result w
             else
               (Inr (''Distillation mode '' @ [CHR 0x27] @ llm_simulation_mode @ [CHR 0x27] @
                     '' not recognized. Default insight generated.''), w))
      in case text of
           Inl e \<Rightarrow> (Inl e, w1)
         | Inr c \<Rightarrow>
             (let (u, w2) = draw_uuid L w1
              in (Inr \<lparr>insight_id = ''insight_'' @ u, content = c,
                       source_pathway_id = pathway_id policy_pathway\<rparr>, w2)))"

text \<open>
  \<^verbatim>\<open>update_memory\<close>. The store that the outcome selects is changed in place, so what was
  added before an exception stays added. The pathway handed back is the object that
  \<^verbatim>\<open>add_insight\<close> has just linked.
\<close>

definition set_target :: "HDPM \<Rightarrow> int \<Rightarrow> MemoryStore \<Rightarrow> HDPM" where
  "set_target h result s =
     (if result = 1 then h\<lparr>positive_memory := s\<rparr> else h\<lparr>negative_memory := s\<rparr>)"

definition update_memory ::
  "pylib \<Rightarrow> string \<Rightarrow> step list \<Rightarrow> int \<Rightarrow> HDPM \<Rightarrow> world \<Rightarrow>
   (py_error + Insight option \<times> PolicyPathway option \<times> AtomicEvidenceCard list) \<times> HDPM \<times> world" where
  "update_memory L llm_simulation_mode trajectory result hdpm_instance w =
     (if trajectory = [] then (Inr (None, None, []), hdpm_instance, w)
      else
        (case atomize L trajectory w of
           (Inl e, w1) \<Rightarrow> (Inl e, hdpm_instance, w1)
         | (Inr evidence_cards, w1) \<Rightarrow>
             if evidence_cards = [] then (Inr (None, None, []), hdpm_instance, w1)
             else
               (case serialize L evidence_cards w1 of
                  (Inl e, w2) \<Rightarrow> (Inl e, hdpm_instance, w2)
                | (Inr policy_pathway, w2) \<Rightarrow>
                    (let target0 = (if result = 1 then positive_memory hdpm_instance
                                    else negative_memory hdpm_instance);
                         target1 = foldl add_evidence_card target0 evidence_cards;
                         target2 = add_policy_pathway target1 policy_pathway
                     in case distill L llm_simulation_mode policy_pathway target2 result w2 of
                          (Inl e, w3) \<Rightarrow> (Inl e, set_target hdpm_instance result target2, w3)
                        | (Inr insight, w3) \<Rightarrow>
                            (Inr (Some insight,
                                  Some (policy_pathway\<lparr>linked_insight_id := Some (insight_id insight)\<rparr>),
                                  evidence_cards),
                             set_target hdpm_instance result (add_insight target2 insight), w3)))))"

section \<open>Reference readings of the specification\<close>

text \<open>
  The normalisation of a text, in the words of the specification: the text is lower-cased,
  every character other than word characters, white space and the hyphen is stripped,
  hyphens are replaced by blanks, and the result is split at white space into the set of
  its terms. The terms of a string are its maximal pieces free of white space: the
  non-empty pieces without a separator that are bounded on each side by a separator or
  by the end of the string.
\<close>

definition words_between :: "(char \<Rightarrow> bool) \<Rightarrow> string \<Rightarrow> string set" where
  "words_between sep s =
     {w. w \<noteq> [] \<and> (\<forall>c \<in> set w. \<not> sep c) \<and>
         (\<exists>pre post. s = pre @ w @ post \<and> (pre = [] \<or> sep (last pre)) \<and>
                     (post = [] \<or> sep (hd post)))}"

definition reference_terms :: "unicode \<Rightarrow> string \<Rightarrow> string set" where
  "reference_terms U text =
     words_between (str_isspace U)
       [if c = CHR ''-'' then CHR '' '' else c.
          c \<leftarrow> str_lower U text, re_word U c \<or> re_space U c \<or> c = CHR ''-'']"

text \<open>
  The reference ranking of the retrieval, in the words of the specification. The score of
  an insight is the number of terms that its content shares with the query. A list
  \<open>ranked\<close> is the reference ranking of the stored insights when it holds exactly the
  stored insights of positive score, is descending by score, and keeps insights of equal
  score in the order in which the store iterates them.
\<close>

definition overlap_score :: "unicode \<Rightarrow> string \<Rightarrow> Insight \<Rightarrow> nat" where
  "overlap_score U query insight =
     card (reference_terms U query \<inter> reference_terms U (content insight))"

definition reference_ranking :: "unicode \<Rightarrow> string \<Rightarrow> Insight list \<Rightarrow> Insight list \<Rightarrow> bool" where
  "reference_ranking U query stored ranked =
     (mset ranked = mset (filter (\<lambda>i. 0 < overlap_score U query i) stored) \<and>
      sorted_wrt (\<lambda>i j. overlap_score U query j \<le> overlap_score U query i) ranked \<and>
      (\<forall>k. filter (\<lambda>i. overlap_score U query i = k) ranked =
            filter (\<lambda>i. overlap_score U query i = k \<and> 0 < k) stored))"





text \<open>
  A store is well formed when every key is the id of the entity under it and no key
  occurs twice, as in every store that the three add operations build from the empty one.
  Replaying a list of insights leaves on the pathway under key \<open>k\<close> the id of the last
  insight that names \<open>k\<close> as its source, or the link the pathway had when none does.
\<close>

definition well_formed :: "MemoryStore \<Rightarrow> bool" where
  "well_formed s =
     (distinct (map fst (insights s)) \<and> distinct (map fst (pathways s)) \<and>
      distinct (map fst (evidence s)) \<and>
      list_all (\<lambda>(k, i). insight_id i = k) (insights s) \<and>
      list_all (\<lambda>(k, p). pathway_id p = k) (pathways s) \<and>
      list_all (\<lambda>(k, c). card_id c = k) (evidence s))"

definition replayed_link :: "Insight dict \<Rightarrow> string \<Rightarrow> PolicyPathway \<Rightarrow> string option" where
  "replayed_link stored k p =
     (case filter (\<lambda>i. source_pathway_id i = k) (map snd stored) of
        [] \<Rightarrow> linked_insight_id p
      | i # rest \<Rightarrow> Some (insight_id (last (i # rest))))"

text \<open>
  The tool names that the keyword strategy collects from the cards of a pathway, and what
  makes a function an iteration order of sets: it lists the elements of the set built
  from a list, each once.
\<close>

definition collected_tools :: "pylib \<Rightarrow> MemoryStore \<Rightarrow> string \<Rightarrow> string list" where
  "collected_tools L s pid =
     (case get_evidence_cards_for_pathway s pid of
        Inl e \<Rightarrow> []
      | Inr cards \<Rightarrow>
          kw_tool_used (scan_cards L cards
            \<lparr>kw_success = [], kw_failure = [], kw_tool_used = [], kw_critical_feedback = []\<rparr>))"

definition set_iteration :: "(string list \<Rightarrow> string list) \<Rightarrow> bool" where
  "set_iteration f = (\<forall>xs. set (f xs) = set xs \<and> distinct (f xs))"

section \<open>Sample data\<close>

text \<open>
  A small store in the shape that \<^verbatim>\<open>update_memory\<close> leaves: two cards with naive timestamps,
  one pathway that names them out of time order together with an id that is not stored,
  and insights to add to it.
\<close>

definition sample_card_late :: AtomicEvidenceCard where
  "sample_card_late =
     \<lparr>card_id = ''e1'', card_content = ''Used ToolX on alpha'', agent_type = ''Assistant'',
      timestamp = \<lparr>instant = 20, aware = False\<rparr>\<rparr>"

definition sample_card_early :: AtomicEvidenceCard where
  "sample_card_early =
     \<lparr>card_id = ''e2'', card_content = ''Fold alpha'', agent_type = ''Planner'',
      timestamp = \<lparr>instant = 10, aware = False\<rparr>\<rparr>"

definition sample_card_aware :: AtomicEvidenceCard where
  "sample_card_aware =
     \<lparr>card_id = ''e3'', card_content = ''Bad fold'', agent_type = ''Critic'',
      timestamp = \<lparr>instant = 5, aware = True\<rparr>\<rparr>"

definition sample_pathway :: PolicyPathway where
  "sample_pathway =
     \<lparr>pathway_id = ''p1'', evidence_card_ids = [''e1'', ''gone'', ''e2''],
      linked_insight_id = None\<rparr>"

definition sample_store :: MemoryStore where
  "sample_store =
     \<lparr>insights = [], pathways = [(''p1'', sample_pathway)],
      evidence = [(''e1'', sample_card_late), (''e2'', sample_card_early)]\<rparr>"

definition sample_insight_a :: Insight where
  "sample_insight_a = \<lparr>insight_id = ''a'', content = ''Alpha-fold, beta!'', source_pathway_id = ''p1''\<rparr>"

definition sample_insight_b :: Insight where
  "sample_insight_b = \<lparr>insight_id = ''b'', content = ''beta'', source_pathway_id = ''p1''\<rparr>"

definition sample_orphan :: Insight where
  "sample_orphan = \<lparr>insight_id = ''o'', content = ''alpha beta'', source_pathway_id = ''p9''\<rparr>"

text \<open>A store whose pathway names a card with a naive and a card with an aware timestamp.\<close>

definition mixed_store :: MemoryStore where
  "mixed_store =
     \<lparr>insights = [],
      pathways = [(''p1'', \<lparr>pathway_id = ''p1'', evidence_card_ids = [''e1'', ''e3''],
                            linked_insight_id = None\<rparr>)],
      evidence = [(''e1'', sample_card_late), (''e3'', sample_card_aware)]\<rparr>"

text \<open>A store with four insights, one of them without its pathway, for the retrieval.\<close>

definition sample_insight_z :: Insight where
  "sample_insight_z = \<lparr>insight_id = ''z'', content = ''gamma'', source_pathway_id = ''p1''\<rparr>"

definition retrieval_store :: MemoryStore where
  "retrieval_store =
     \<lparr>insights = [(''b'', sample_insight_b), (''z'', sample_insight_z), (''a'', sample_insight_a),
                  (''o'', sample_orphan)],
      pathways = [(''p1'', sample_pathway)],
      evidence = []\<rparr>"

text \<open>
  Tables for the samples, right on ASCII text: \<^verbatim>\<open>A-Z\<close> are lower-cased to \<^verbatim>\<open>a-z\<close>, word
  characters are letters, digits and the underscore, and white space is the characters 9
  to 13, 28 to 31 and the blank.
\<close>

definition ascii_uppercase :: string where
  "ascii_uppercase = ''ABCDEFGHIJKLMNOPQRSTUVWXYZ''"

definition ascii_lowercase :: string where
  "ascii_lowercase = ''abcdefghijklmnopqrstuvwxyz''"

definition ascii_lower :: "char \<Rightarrow> char" where
  "ascii_lower c = (case map_of (zip ascii_uppercase ascii_lowercase) c of Some l \<Rightarrow> l | None \<Rightarrow> c)"

definition ascii_word :: "char \<Rightarrow> bool" where
  "ascii_word c = (c \<in> set (ascii_lowercase @ ascii_uppercase @ ''0123456789_''))"

definition ascii_space :: "char \<Rightarrow> bool" where
  "ascii_space c =
     (c \<in> set [CHR 0x09, CHR 0x0A, CHR 0x0B, CHR 0x0C, CHR 0x0D,
                CHR 0x1C, CHR 0x1D, CHR 0x1E, CHR 0x1F, CHR '' ''])"

definition ascii_tables :: unicode where
  "ascii_tables =
     \<lparr>str_lower = map ascii_lower, re_word = ascii_word, re_space = ascii_space,
      str_isspace = ascii_space\<rparr>"

text \<open>
  A library for the samples: UUIDs are the decimal numerals, the clock ticks once a second,
  one ISO-8601 text is known, a set is iterated in the order of first insertion, and the
  generator counts up.
\<close>

definition sample_lib :: pylib where
  "sample_lib =
     \<lparr>tables = ascii_tables,
      uuid4 = str_nat,
      clock = (\<lambda>n. 1000000 * (100 + int n)),
      fromisoformat =
        (\<lambda>s. if s = ''2023-01-01T10:00:00+00:00'' then Some \<lparr>instant = 7, aware = True\<rparr> else None),
      str_of_step = (\<lambda>e. ''{}''),
      set_order = remdups,
      randbelow = (\<lambda>g n. (g mod n, Suc g))\<rparr>"

definition sample_world :: world where
  "sample_world = \<lparr>uuid_count = 0, clock_count = 0, rng_state = 0\<rparr>"

definition other_world :: world where
  "other_world = \<lparr>uuid_count = 5, clock_count = 3, rng_state = 0\<rparr>"




text \<open>Two stores built by the add operations: the insight added before, and after, its pathway.\<close>

definition late_pathway_store :: MemoryStore where
  "late_pathway_store = add_policy_pathway (add_insight empty_store sample_insight_a) sample_pathway"

definition linked_store :: MemoryStore where
  "linked_store = add_insight sample_store sample_insight_a"

text \<open>
  A store whose pathway has two assistant cards that name different tools, and the sample
  library with its sets iterated in the opposite order.
\<close>

definition tools_store :: MemoryStore where
  "tools_store =
     \<lparr>insights = [],
      pathways = [(''p1'', \<lparr>pathway_id = ''p1'', evidence_card_ids = [''t1'', ''t2''],
                            linked_insight_id = None\<rparr>)],
      evidence =
        [(''t1'', \<lparr>card_id = ''t1'', card_content = ''Used ToolA first'', agent_type = ''Assistant'',
                    timestamp = \<lparr>instant = 1, aware = False\<rparr>\<rparr>),
         (''t2'', \<lparr>card_id = ''t2'', card_content = ''Used ToolB next'', agent_type = ''Assistant'',
                    timestamp = \<lparr>instant = 2, aware = False\<rparr>\<rparr>)]\<rparr>"

definition reversed_sets_lib :: pylib where
  "reversed_sets_lib = sample_lib\<lparr>set_order := (\<lambda>xs. rev (remdups xs))\<rparr>"

definition tools_pathway :: PolicyPathway where
  "tools_pathway = \<lparr>pathway_id = ''p1'', evidence_card_ids = [], linked_insight_id = None\<rparr>"

section \<open>Properties of the store operations\<close>

lemma get_insight_add_insight:
  "get_insight (add_insight s i) k = (if k = insight_id i then Some i else get_insight s k)"
  by (simp add: get_insight_def add_insight_def Let_def update_conv' split: option.splits)

lemma get_policy_pathway_add_insight:
  "get_policy_pathway (add_insight s i) k =
     (if k = source_pathway_id i
      then map_option (\<lambda>p. p\<lparr>linked_insight_id := Some (insight_id i)\<rparr>) (get_policy_pathway s k)
      else get_policy_pathway s k)"
  by (simp add: get_policy_pathway_def add_insight_def Let_def update_conv' split: option.splits)

lemma get_policy_pathway_add_evidence_card:
  "get_policy_pathway (add_evidence_card s c) k = get_policy_pathway s k"
  by (simp add: get_policy_pathway_def add_evidence_card_def)

lemma get_policy_pathway_add_policy_pathway:
  "get_policy_pathway (add_policy_pathway s q) k =
     (if k = pathway_id q then Some q else get_policy_pathway s k)"
  by (simp add: get_policy_pathway_def add_policy_pathway_def update_conv')

lemma evidence_add_insight: "evidence (add_insight s i) = evidence s"
  by (simp add: add_insight_def Let_def split: option.splits)

lemma pathway_keys_add_insight: "map fst (pathways (add_insight s i)) = map fst (pathways s)"
  by (auto simp: add_insight_def Let_def update_keys map_of_eq_None_iff split: option.splits
      dest: map_of_SomeD intro: rev_image_eqI)

lemma pathways_add_insight_unlinked:
  "get_policy_pathway s (source_pathway_id i) = None \<Longrightarrow> pathways (add_insight s i) = pathways s"
  by (simp add: get_policy_pathway_def add_insight_def Let_def)

lemma sample_store_lookups:
  "get_policy_pathway sample_store ''p1'' = Some sample_pathway"
  "get_policy_pathway sample_store ''p9'' = None"
  "get_evidence_card sample_store ''e1'' = Some sample_card_late"
  "get_evidence_card sample_store ''e2'' = Some sample_card_early"
  "get_evidence_card sample_store ''gone'' = None"
  by (simp_all add: sample_store_def get_policy_pathway_def get_evidence_card_def)

text \<open>
  Claim C3. \<^verbatim>\<open>add_insight\<close> always stores the insight under its id. If the source pathway id
  is a key of the pathway mapping, the pathway under that key gets its link field set to
  the id of the insight and nothing is printed. Otherwise the pathway mapping is left as
  it was, exactly one warning line is printed, and the insight is stored all the same. The
  operation is a total function into stores: no branch of it raises.
\<close>

theorem add_insight_stores_and_links:
  "get_insight (add_insight s i) (insight_id i) = Some i \<and>
   (\<forall>p. get_policy_pathway s (source_pathway_id i) = Some p \<longrightarrow>
      get_policy_pathway (add_insight s i) (source_pathway_id i) =
        Some (p\<lparr>linked_insight_id := Some (insight_id i)\<rparr>) \<and>
      add_insight_printed s i = []) \<and>
   (get_policy_pathway s (source_pathway_id i) = None \<longrightarrow>
      pathways (add_insight s i) = pathways s \<and>
      add_insight_printed s i =
        [''Warning: Source pathway '' @ source_pathway_id i @
         '' not found in this store for insight '' @ insight_id i @ '' during linking.''])"
  by (simp add: get_insight_add_insight get_policy_pathway_add_insight
      pathways_add_insight_unlinked)
     (auto simp: add_insight_printed_def get_policy_pathway_def)

theorem add_insight_stores_and_links_witness:
  "get_policy_pathway sample_store ''p1'' = Some sample_pathway \<and>
   get_insight (add_insight sample_store sample_insight_a) ''a'' = Some sample_insight_a \<and>
   get_policy_pathway (add_insight sample_store sample_insight_a) ''p1'' =
     Some (sample_pathway\<lparr>linked_insight_id := Some ''a''\<rparr>) \<and>
   add_insight_printed sample_store sample_insight_a = [] \<and>
   get_policy_pathway sample_store ''p9'' = None \<and>
   get_insight (add_insight sample_store sample_orphan) ''o'' = Some sample_orphan \<and>
   pathways (add_insight sample_store sample_orphan) = pathways sample_store \<and>
   length (add_insight_printed sample_store sample_orphan) = 1"
proof -
  have linked: "get_policy_pathway sample_store (source_pathway_id sample_insight_a) = Some sample_pathway"
    by (simp add: sample_insight_a_def sample_store_lookups)
  have orphan: "get_policy_pathway sample_store (source_pathway_id sample_orphan) = None"
    by (simp add: sample_orphan_def sample_store_lookups)
  from add_insight_stores_and_links [of sample_store sample_insight_a] linked
  have a: "get_insight (add_insight sample_store sample_insight_a) ''a'' = Some sample_insight_a \<and>
      get_policy_pathway (add_insight sample_store sample_insight_a) ''p1'' =
        Some (sample_pathway\<lparr>linked_insight_id := Some ''a''\<rparr>) \<and>
      add_insight_printed sample_store sample_insight_a = []"
    by (simp add: sample_insight_a_def)
  from add_insight_stores_and_links [of sample_store sample_orphan] orphan
  have b: "get_insight (add_insight sample_store sample_orphan) ''o'' = Some sample_orphan \<and>
      pathways (add_insight sample_store sample_orphan) = pathways sample_store \<and>
      length (add_insight_printed sample_store sample_orphan) = 1"
    by (simp add: sample_orphan_def)
  from a b show ?thesis by (simp add: sample_store_lookups)
qed

text \<open>
  Claim C10. The frame of \<^verbatim>\<open>add_insight\<close>: the evidence mapping is unchanged; every insight
  under another id is unchanged; every pathway under a key other than the source pathway
  id is unchanged; the keys of the pathway mapping and their order are unchanged; and
  every pathway of the new store, the one under the source pathway id included, has the
  id and the list of evidence ids that it had before, so that the link field of that one
  pathway is all that can differ.
\<close>

theorem add_insight_frame:
  "evidence (add_insight s i) = evidence s \<and>
   (\<forall>k. k \<noteq> insight_id i \<longrightarrow> get_insight (add_insight s i) k = get_insight s k) \<and>
   (\<forall>k. k \<noteq> source_pathway_id i \<longrightarrow>
      get_policy_pathway (add_insight s i) k = get_policy_pathway s k) \<and>
   map fst (pathways (add_insight s i)) = map fst (pathways s) \<and>
   (\<forall>k p. get_policy_pathway (add_insight s i) k = Some p \<longrightarrow>
      (\<exists>p0. get_policy_pathway s k = Some p0 \<and> pathway_id p = pathway_id p0 \<and>
            evidence_card_ids p = evidence_card_ids p0))"
  by (auto simp: get_insight_add_insight get_policy_pathway_add_insight evidence_add_insight
      pathway_keys_add_insight split: if_splits)

theorem add_insight_frame_witness:
  "evidence (add_insight sample_store sample_insight_b) = evidence sample_store \<and>
   get_insight (add_insight sample_store sample_insight_b) ''a'' = get_insight sample_store ''a'' \<and>
   get_policy_pathway (add_insight sample_store sample_insight_b) ''p9'' = None \<and>
   map fst (pathways (add_insight sample_store sample_insight_b)) = [''p1''] \<and>
   (\<exists>p. get_policy_pathway (add_insight sample_store sample_insight_b) ''p1'' = Some p \<and>
        pathway_id p = ''p1'' \<and> evidence_card_ids p = [''e1'', ''gone'', ''e2''])"
proof -
  have after: "get_policy_pathway (add_insight sample_store sample_insight_b) ''p1'' =
      Some (sample_pathway\<lparr>linked_insight_id := Some ''b''\<rparr>)"
    by (simp add: get_policy_pathway_add_insight sample_insight_b_def sample_store_lookups)
  from add_insight_frame [of sample_store sample_insight_b] after
  show ?thesis
    by (simp add: sample_insight_b_def sample_store_lookups) (simp add: sample_store_def sample_pathway_def)
qed

text \<open>
  Claim C4, as the code has it. The claim says that a link, once set, is never changed to
  another value. \<^verbatim>\<open>add_insight\<close> writes the link without looking at it: two insights
  with different ids that name the same pathway leave the id of the second one.
\<close>

theorem link_overwritten_counterexample:
  "map_option linked_insight_id
     (get_policy_pathway
        (add_insight (add_policy_pathway empty_store sample_pathway) sample_insight_a) ''p1'')
     = Some (Some ''a'') \<and>
   map_option linked_insight_id
     (get_policy_pathway
        (add_insight (add_insight (add_policy_pathway empty_store sample_pathway) sample_insight_a)
           sample_insight_b) ''p1'')
     = Some (Some ''b'')"
  by (simp add: get_policy_pathway_add_insight get_policy_pathway_add_policy_pathway
      sample_pathway_def sample_insight_a_def sample_insight_b_def)

text \<open>
  Claim C4, amended. For a pathway stored under \<open>pid\<close>: after \<^verbatim>\<open>add_insight\<close> its link is
  the id of the new insight when that insight names \<open>pid\<close> as its source (the last writer
  wins), and is what it was otherwise; \<^verbatim>\<open>add_evidence_card\<close> leaves the pathway as it is,
  and so does \<^verbatim>\<open>add_policy_pathway\<close> of a pathway with another id.
\<close>

theorem link_last_writer_wins:
  assumes "get_policy_pathway s pid = Some p"
  shows "map_option linked_insight_id (get_policy_pathway (add_insight s i) pid) =
           Some (if source_pathway_id i = pid then Some (insight_id i) else linked_insight_id p) \<and>
         get_policy_pathway (add_evidence_card s c) pid = Some p \<and>
         (pathway_id q \<noteq> pid \<longrightarrow> get_policy_pathway (add_policy_pathway s q) pid = Some p)"
  using assms
  by (auto simp: get_policy_pathway_add_insight get_policy_pathway_add_evidence_card
      get_policy_pathway_add_policy_pathway)

theorem link_last_writer_wins_witness:
  "get_policy_pathway sample_store ''p1'' = Some sample_pathway \<and>
   map_option linked_insight_id (get_policy_pathway (add_insight sample_store sample_insight_b) ''p1'')
     = Some (Some ''b'') \<and>
   map_option linked_insight_id (get_policy_pathway (add_insight sample_store sample_orphan) ''p1'')
     = Some None \<and>
   get_policy_pathway (add_evidence_card sample_store sample_card_aware) ''p1'' = Some sample_pathway \<and>
   get_policy_pathway
     (add_policy_pathway sample_store (sample_pathway\<lparr>pathway_id := ''p2''\<rparr>)) ''p1'' = Some sample_pathway"
proof -
  have stored: "get_policy_pathway sample_store ''p1'' = Some sample_pathway"
    by (simp add: sample_store_lookups)
  from link_last_writer_wins [OF stored, of sample_insight_b sample_card_aware
      "sample_pathway\<lparr>pathway_id := ''p2''\<rparr>"]
    link_last_writer_wins [OF stored, of sample_orphan sample_card_aware sample_pathway]
  show ?thesis
    by (simp add: stored sample_insight_b_def sample_orphan_def) (simp add: sample_pathway_def)
qed

lemma resolve_cards_map_filter:
  "resolve_cards s ids = List.map_filter (get_evidence_card s) ids"
  by (induction ids) (auto simp: List.map_filter_simps split: option.splits)

lemma resolve_cards_printed_length:
  "length (resolve_cards_printed s pid ids) =
     length (filter (\<lambda>k. get_evidence_card s k = None) ids)"
  by (induction ids) (auto split: option.splits)

text \<open>
  Claim C5, as the code has it. The claim promises the sorted cards for every store. The
  sort compares timestamps, and Python refuses to compare a naive with an aware datetime:
  on a pathway that resolves to one card of each kind the call raises \<^verbatim>\<open>TypeError\<close>.
\<close>

theorem get_evidence_cards_mixed_counterexample:
  "get_policy_pathway mixed_store ''p1'' \<noteq> None \<and>
   get_evidence_cards_for_pathway mixed_store ''p1'' = Inl TypeError"
  by (simp add: get_evidence_cards_for_pathway_def get_policy_pathway_def get_evidence_card_def
      mixed_store_def sorted_by_timestamp_def comparable_def sample_card_late_def
      sample_card_aware_def)

text \<open>
  Claim C5, amended. For an unknown pathway id the result is the empty list and nothing is
  printed. For a known one, let \<open>found\<close> be the cards that the ids of the pathway resolve
  to, in the order of the ids, absent ids left out. When the timestamps of \<open>found\<close> are
  all naive or all aware, the call returns a list with exactly the cards of \<open>found\<close>
  (counted with repetition), ascending by timestamp, cards of equal timestamp in the
  order of \<open>found\<close>; otherwise it raises \<^verbatim>\<open>TypeError\<close>. In both cases one warning line is
  printed for each absent id.
\<close>

theorem get_evidence_cards_for_pathway_sorted:
  "(get_policy_pathway s pid = None \<longrightarrow>
      get_evidence_cards_for_pathway s pid = Inr [] \<and>
      get_evidence_cards_for_pathway_printed s pid = []) \<and>
   (\<forall>p. get_policy_pathway s pid = Some p \<longrightarrow>
      (let found = List.map_filter (get_evidence_card s) (evidence_card_ids p) in
       (comparable found \<longrightarrow>
          (\<exists>cs. get_evidence_cards_for_pathway s pid = Inr cs \<and>
                mset cs = mset found \<and>
                sorted (map (\<lambda>c. instant (timestamp c)) cs) \<and>
                (\<forall>t. filter (\<lambda>c. instant (timestamp c) = t) cs =
                     filter (\<lambda>c. instant (timestamp c) = t) found))) \<and>
       (\<not> comparable found \<longrightarrow> get_evidence_cards_for_pathway s pid = Inl TypeError) \<and>
       length (get_evidence_cards_for_pathway_printed s pid) =
         length (filter (\<lambda>k. get_evidence_card s k = None) (evidence_card_ids p))))"
  by (auto simp: get_evidence_cards_for_pathway_def get_evidence_cards_for_pathway_printed_def
      sorted_by_timestamp_def resolve_cards_map_filter resolve_cards_printed_length Let_def
      sort_key_stable)

theorem get_evidence_cards_for_pathway_sorted_witness:
  "get_policy_pathway sample_store ''p1'' = Some sample_pathway \<and>
   comparable [sample_card_late, sample_card_early] \<and>
   (\<exists>cs. get_evidence_cards_for_pathway sample_store ''p1'' = Inr cs \<and>
         mset cs = {#sample_card_late, sample_card_early#} \<and>
         sorted (map (\<lambda>c. instant (timestamp c)) cs)) \<and>
   get_evidence_cards_for_pathway sample_store ''p1'' = Inr [sample_card_early, sample_card_late] \<and>
   length (get_evidence_cards_for_pathway_printed sample_store ''p1'') = 1 \<and>
   get_evidence_cards_for_pathway sample_store ''p9'' = Inr []"
proof -
  have stored: "get_policy_pathway sample_store ''p1'' = Some sample_pathway"
    and unknown: "get_policy_pathway sample_store ''p9'' = None"
    by (simp_all add: sample_store_lookups)
  have found: "List.map_filter (get_evidence_card sample_store) (evidence_card_ids sample_pathway) =
      [sample_card_late, sample_card_early]"
    by (simp add: sample_pathway_def List.map_filter_simps sample_store_lookups)
  have cmp: "comparable [sample_card_late, sample_card_early]"
    by (simp add: comparable_def sample_card_late_def sample_card_early_def)
  have val: "get_evidence_cards_for_pathway sample_store ''p1'' = Inr [sample_card_early, sample_card_late]"
    by (simp add: get_evidence_cards_for_pathway_def stored sample_pathway_def sample_store_lookups
        sorted_by_timestamp_def cmp) (simp add: sample_card_late_def sample_card_early_def)
  from get_evidence_cards_for_pathway_sorted [of sample_store "''p1''"] stored found cmp
  have one: "(\<exists>cs. get_evidence_cards_for_pathway sample_store ''p1'' = Inr cs \<and>
         mset cs = {#sample_card_late, sample_card_early#} \<and>
         sorted (map (\<lambda>c. instant (timestamp c)) cs)) \<and>
      length (get_evidence_cards_for_pathway_printed sample_store ''p1'') = 1"
    by (auto simp: Let_def sample_pathway_def sample_store_lookups)
  from get_evidence_cards_for_pathway_sorted [of sample_store "''p9''"] unknown
  have two: "get_evidence_cards_for_pathway sample_store ''p9'' = Inr []"
    by simp
  from stored cmp one two val show ?thesis by simp
qed

section \<open>Serialization round trip\<close>

text \<open>The stores built by the add operations from the empty one are well formed.\<close>

lemma list_all_update:
  "list_all P al \<Longrightarrow> P (k, v) \<Longrightarrow> list_all P (AList.update k v al)"
  by (induction al) auto

lemma well_formed_empty_store: "well_formed empty_store"
  by (simp add: well_formed_def empty_store_def)

lemma well_formed_add_evidence_card:
  "well_formed s \<Longrightarrow> well_formed (add_evidence_card s c)"
  by (simp add: well_formed_def add_evidence_card_def distinct_update list_all_update)

lemma well_formed_add_policy_pathway:
  "well_formed s \<Longrightarrow> well_formed (add_policy_pathway s p)"
  by (simp add: well_formed_def add_policy_pathway_def distinct_update list_all_update)

lemma well_formed_add_insight:
  assumes "well_formed s"
  shows "well_formed (add_insight s i)"
proof (cases "map_of (pathways s) (source_pathway_id i)")
  case None
  with assms show ?thesis
    by (simp add: well_formed_def add_insight_def distinct_update list_all_update)
next
  case (Some p)
  then have "(source_pathway_id i, p) \<in> set (pathways s)"
    by (rule map_of_SomeD)
  with assms have "pathway_id p = source_pathway_id i"
    by (auto simp: well_formed_def list_all_iff)
  with assms Some show ?thesis
    by (simp add: well_formed_def add_insight_def distinct_update list_all_update)
qed

lemma update_fresh: "k \<notin> fst ` set al \<Longrightarrow> AList.update k v al = al @ [(k, v)]"
  by (induction al) auto

lemma map_absent:
  "k \<notin> fst ` set al \<Longrightarrow> map (\<lambda>(k', p'). (k', if k' = k then f p' else p')) al = al"
  by (induction al) auto

lemma update_found:
  "distinct (map fst al) \<Longrightarrow> map_of al k = Some p \<Longrightarrow>
   AList.update k (f p) al = map (\<lambda>(k', p'). (k', if k' = k then f p' else p')) al"
proof (induction al)
  case Nil
  then show ?case by simp
next
  case (Cons a al)
  obtain k0 p0 where a: "a = (k0, p0)" by (cases a)
  show ?case
  proof (cases "k0 = k")
    case True
    with Cons.prems a have "k \<notin> fst ` set al" and "p0 = p" by auto
    with True a show ?thesis by (simp add: map_absent)
  next
    case False
    with Cons a show ?thesis by simp
  qed
qed

lemma update_present:
  assumes "distinct (map fst al)"
  shows "(case map_of al k of Some p \<Rightarrow> AList.update k (f p) al | None \<Rightarrow> al) =
     map (\<lambda>(k', p'). (k', if k' = k then f p' else p')) al"
proof (cases "map_of al k")
  case None
  then have "k \<notin> fst ` set al" by (simp add: map_of_eq_None_iff)
  with None show ?thesis by (simp add: map_absent)
next
  case (Some p)
  with assms show ?thesis by (simp add: update_found)
qed

lemma replay_evidence:
  "list_all (\<lambda>(k, c). card_id c = k) al \<Longrightarrow> distinct (map fst (evidence st @ al)) \<Longrightarrow>
   foldl (\<lambda>st (k, card_data). add_evidence_card st (card_from_dict card_data)) st
     (map (\<lambda>(k, ec). (k, card_to_dict ec)) al) = st\<lparr>evidence := evidence st @ al\<rparr>"
proof (induction al arbitrary: st)
  case Nil
  show ?case by simp
next
  case (Cons a al)
  obtain k c where a: "a = (k, c)" by (cases a)
  from Cons.prems a have cid: "card_id c = k" and fresh: "k \<notin> fst ` set (evidence st)"
    by auto
  have restored: "card_from_dict (card_to_dict c) = c"
    by (simp add: card_from_dict_def card_to_dict_def)
  have step: "add_evidence_card st c = st\<lparr>evidence := evidence st @ [(k, c)]\<rparr>"
    using cid fresh by (simp add: add_evidence_card_def update_fresh)
  from Cons.prems a have "list_all (\<lambda>(k, c). card_id c = k) al"
    and "distinct (map fst (evidence (st\<lparr>evidence := evidence st @ [(k, c)]\<rparr>) @ al))"
    by auto
  then have "foldl (\<lambda>st (k, card_data). add_evidence_card st (card_from_dict card_data))
      (st\<lparr>evidence := evidence st @ [(k, c)]\<rparr>) (map (\<lambda>(k, ec). (k, card_to_dict ec)) al) =
      st\<lparr>evidence := evidence st @ [(k, c)]\<rparr>\<lparr>evidence := evidence (st\<lparr>evidence := evidence st @ [(k, c)]\<rparr>) @ al\<rparr>"
    by (rule Cons.IH)
  with a restored step show ?case by simp
qed

lemma replay_pathways:
  "list_all (\<lambda>(k, p). pathway_id p = k) al \<Longrightarrow> distinct (map fst (pathways st @ al)) \<Longrightarrow>
   foldl (\<lambda>st (k, pathway_data). add_policy_pathway st (pathway_from_dict pathway_data)) st
     (map (\<lambda>(k, pathway). (k, pathway_to_dict pathway)) al) = st\<lparr>pathways := pathways st @ al\<rparr>"
proof (induction al arbitrary: st)
  case Nil
  show ?case by simp
next
  case (Cons a al)
  obtain k p where a: "a = (k, p)" by (cases a)
  from Cons.prems a have pid: "pathway_id p = k" and fresh: "k \<notin> fst ` set (pathways st)"
    by auto
  have restored: "pathway_from_dict (pathway_to_dict p) = p"
    by (simp add: pathway_from_dict_def pathway_to_dict_def)
  have step: "add_policy_pathway st p = st\<lparr>pathways := pathways st @ [(k, p)]\<rparr>"
    using pid fresh by (simp add: add_policy_pathway_def update_fresh)
  from Cons.prems a have "list_all (\<lambda>(k, p). pathway_id p = k) al"
    and "distinct (map fst (pathways (st\<lparr>pathways := pathways st @ [(k, p)]\<rparr>) @ al))"
    by auto
  then have "foldl (\<lambda>st (k, pathway_data). add_policy_pathway st (pathway_from_dict pathway_data))
      (st\<lparr>pathways := pathways st @ [(k, p)]\<rparr>) (map (\<lambda>(k, pathway). (k, pathway_to_dict pathway)) al) =
      st\<lparr>pathways := pathways st @ [(k, p)]\<rparr>\<lparr>pathways := pathways (st\<lparr>pathways := pathways st @ [(k, p)]\<rparr>) @ al\<rparr>"
    by (rule Cons.IH)
  with a restored step show ?case by simp
qed

lemma replayed_link_Nil: "replayed_link [] k p = linked_insight_id p"
  by (simp add: replayed_link_def)

lemma replayed_link_Cons:
  "replayed_link ((k0, i) # al) k p =
     replayed_link al k (if source_pathway_id i = k then p\<lparr>linked_insight_id := Some (insight_id i)\<rparr> else p)"
  by (simp add: replayed_link_def split: list.splits)

lemma add_insight_fresh:
  assumes "insight_id i \<notin> fst ` set (insights st)" "distinct (map fst (pathways st))"
  shows "add_insight st i =
     st\<lparr>insights := insights st @ [(insight_id i, i)],
        pathways := map (\<lambda>(k, p). (k, if k = source_pathway_id i
                                       then p\<lparr>linked_insight_id := Some (insight_id i)\<rparr> else p))
                      (pathways st)\<rparr>"
proof -
  have "(case map_of (pathways st) (source_pathway_id i) of
          Some p \<Rightarrow> AList.update (source_pathway_id i) (p\<lparr>linked_insight_id := Some (insight_id i)\<rparr>) (pathways st)
        | None \<Rightarrow> pathways st) =
      map (\<lambda>(k, p). (k, if k = source_pathway_id i
                         then p\<lparr>linked_insight_id := Some (insight_id i)\<rparr> else p)) (pathways st)"
    using assms(2) by (rule update_present)
  with assms(1) show ?thesis
    by (simp add: add_insight_def Let_def update_fresh split: option.splits)
qed


lemma replay_insights:
  "list_all (\<lambda>(k, i). insight_id i = k) al \<Longrightarrow> distinct (map fst (insights st @ al)) \<Longrightarrow>
   distinct (map fst (pathways st)) \<Longrightarrow>
   foldl (\<lambda>st (k, insight_data). add_insight st (insight_from_dict insight_data)) st
     (map (\<lambda>(k, insight). (k, insight_to_dict insight)) al) =
   st\<lparr>insights := insights st @ al,
      pathways := map (\<lambda>(k, p). (k, p\<lparr>linked_insight_id := replayed_link al k p\<rparr>)) (pathways st)\<rparr>"
proof (induction al arbitrary: st)
  case Nil
  have "map (\<lambda>(k, p). (k, p\<lparr>linked_insight_id := replayed_link [] k p\<rparr>)) (pathways st) = pathways st"
    by (induction "pathways st") (auto simp: replayed_link_Nil intro: map_idI)
  then show ?case by simp
next
  case (Cons a al)
  obtain k0 i where a: "a = (k0, i)" by (cases a)
  from Cons.prems a have iid: "insight_id i = k0" and fresh: "insight_id i \<notin> fst ` set (insights st)"
    by auto
  have restored: "insight_from_dict (insight_to_dict i) = i"
    by (simp add: insight_from_dict_def insight_to_dict_def)
  let ?g = "\<lambda>(k, p). (k, if k = source_pathway_id i
                            then p\<lparr>linked_insight_id := Some (insight_id i)\<rparr> else p)"
  let ?st1 = "st\<lparr>insights := insights st @ [(insight_id i, i)], pathways := map ?g (pathways st)\<rparr>"
  from fresh Cons.prems(3) have step: "add_insight st i = ?st1"
    by (rule add_insight_fresh)
  have keys: "fst \<circ> ?g = fst"
    by (auto simp: fun_eq_iff)
  from Cons.prems a iid have "list_all (\<lambda>(k, i). insight_id i = k) al"
    and "distinct (map fst (insights ?st1 @ al))"
    and "distinct (map fst (pathways ?st1))"
    by (auto simp: keys)
  then have ih: "foldl (\<lambda>st (k, insight_data). add_insight st (insight_from_dict insight_data)) ?st1
      (map (\<lambda>(k, insight). (k, insight_to_dict insight)) al) =
      ?st1\<lparr>insights := insights ?st1 @ al,
         pathways := map (\<lambda>(k, p). (k, p\<lparr>linked_insight_id := replayed_link al k p\<rparr>)) (pathways ?st1)\<rparr>"
    by (rule Cons.IH)
  have links: "map (\<lambda>(k, p). (k, p\<lparr>linked_insight_id := replayed_link al k p\<rparr>)) (map ?g (pathways st)) =
      map (\<lambda>(k, p). (k, p\<lparr>linked_insight_id := replayed_link ((k0, i) # al) k p\<rparr>)) (pathways st)"
    by (auto simp: replayed_link_Cons)
  from a restored step ih links iid show ?case by simp
qed

text \<open>
  Claim C7, as the code has it. The claim says that every pathway has after the round trip
  the link it had before. \<^verbatim>\<open>from_dict\<close> replays \<^verbatim>\<open>add_insight\<close> for every stored insight, and
  each replay writes the link. A store in which the insight was added before its pathway
  holds the pathway unlinked; reloaded, the pathway is linked to the insight.
\<close>

theorem store_roundtrip_counterexample:
  "well_formed late_pathway_store \<and>
   map_option linked_insight_id (get_policy_pathway late_pathway_store ''p1'') = Some None \<and>
   map_option linked_insight_id
     (get_policy_pathway (from_dict (to_dict late_pathway_store)) ''p1'') = Some (Some ''a'')"
  by code_simp

text \<open>
  Claim C7, amended. For a well-formed store, \<^verbatim>\<open>from_dict(to_dict(store))\<close> has the same
  evidence entries and the same insight entries, in the same order, and the same pathway
  entries except for the link: the link of the pathway under key \<open>k\<close> is the id of the last
  stored insight, in the order of iteration, that names \<open>k\<close> as its source, and is the
  original link when no insight does. So the id sets are reproduced always, and the links
  are reproduced exactly when each original link already is the replayed one; then the
  round trip gives back the store itself. The replay adds evidence, then pathways, then
  insights.
\<close>

theorem store_roundtrip:
  assumes "well_formed s"
  shows "evidence (from_dict (to_dict s)) = evidence s \<and>
         insights (from_dict (to_dict s)) = insights s \<and>
         pathways (from_dict (to_dict s)) =
           map (\<lambda>(k, p). (k, p\<lparr>linked_insight_id := replayed_link (insights s) k p\<rparr>)) (pathways s) \<and>
         (list_all (\<lambda>(k, p). linked_insight_id p = replayed_link (insights s) k p) (pathways s) \<longrightarrow>
            from_dict (to_dict s) = s)"
proof -
  let ?relinked = "map (\<lambda>(k, p). (k, p\<lparr>linked_insight_id := replayed_link (insights s) k p\<rparr>)) (pathways s)"
  from assms have wf:
    "distinct (map fst (insights s))" "distinct (map fst (pathways s))" "distinct (map fst (evidence s))"
    "list_all (\<lambda>(k, i). insight_id i = k) (insights s)"
    "list_all (\<lambda>(k, p). pathway_id p = k) (pathways s)"
    "list_all (\<lambda>(k, c). card_id c = k) (evidence s)"
    by (simp_all add: well_formed_def)
  let ?s1 = "empty_store\<lparr>evidence := evidence s\<rparr>"
  let ?s2 = "?s1\<lparr>pathways := pathways s\<rparr>"
  have e: "foldl (\<lambda>st (k, card_data). add_evidence_card st (card_from_dict card_data)) empty_store
      (map (\<lambda>(k, ec). (k, card_to_dict ec)) (evidence s)) = ?s1"
    using replay_evidence [of "evidence s" empty_store] wf by (simp add: empty_store_def)
  have p: "foldl (\<lambda>st (k, pathway_data). add_policy_pathway st (pathway_from_dict pathway_data)) ?s1
      (map (\<lambda>(k, pathway). (k, pathway_to_dict pathway)) (pathways s)) = ?s2"
    using replay_pathways [of "pathways s" ?s1] wf by (simp add: empty_store_def)
  have i: "foldl (\<lambda>st (k, insight_data). add_insight st (insight_from_dict insight_data)) ?s2
      (map (\<lambda>(k, insight). (k, insight_to_dict insight)) (insights s)) =
      ?s2\<lparr>insights := insights s, pathways := ?relinked\<rparr>"
    using replay_insights [of "insights s" ?s2] wf by (simp add: empty_store_def)
  have "from_dict (to_dict s) = ?s2\<lparr>insights := insights s, pathways := ?relinked\<rparr>"
    by (simp add: from_dict_def to_dict_def Let_def e p i)
  then have all: "from_dict (to_dict s) =
      \<lparr>insights = insights s, pathways = ?relinked, evidence = evidence s\<rparr>"
    by (simp add: empty_store_def)
  have same: "?relinked = pathways s"
    if "list_all (\<lambda>(k, p). linked_insight_id p = replayed_link (insights s) k p) (pathways s)"
    using that by (induction "pathways s") (auto simp: list_all_iff intro!: map_idI)
  from all same show ?thesis by auto
qed


theorem store_roundtrip_witness:
  "well_formed linked_store \<and>
   list_all (\<lambda>(k, p). linked_insight_id p = replayed_link (insights linked_store) k p)
     (pathways linked_store) \<and>
   map fst (evidence (from_dict (to_dict linked_store))) = [''e1'', ''e2''] \<and>
   map fst (pathways (from_dict (to_dict linked_store))) = [''p1''] \<and>
   map fst (insights (from_dict (to_dict linked_store))) = [''a''] \<and>
   map_option linked_insight_id (get_policy_pathway (from_dict (to_dict linked_store)) ''p1'') =
     Some (Some ''a'') \<and>
   from_dict (to_dict linked_store) = linked_store"
proof -
  have wf: "well_formed linked_store"
    by code_simp
  have links: "list_all (\<lambda>(k, p). linked_insight_id p = replayed_link (insights linked_store) k p)
      (pathways linked_store)"
    by code_simp
  have keys: "map fst (evidence linked_store) = [''e1'', ''e2'']"
    "map fst (pathways linked_store) = [''p1'']" "map fst (insights linked_store) = [''a'']"
    "map_option linked_insight_id (get_policy_pathway linked_store ''p1'') = Some (Some ''a'')"
    by code_simp+
  from store_roundtrip [OF wf] links have "from_dict (to_dict linked_store) = linked_store"
    by blast
  with wf links keys show ?thesis by simp
qed

section \<open>Properties of the retrieval\<close>

text \<open>
  The scan that stands for \<^verbatim>\<open>str.split()\<close> yields the maximal pieces free of separators, so
  the term set that the code computes is the term set of the specification.
\<close>

lemma words_between_plain:
  assumes "\<forall>c \<in> set t. \<not> sep c"
  shows "words_between sep t = (if t = [] then {} else {t})"
proof -
  have "w = t" if w: "w \<noteq> []" and dec: "t = pre @ w @ post"
    and l: "pre = [] \<or> sep (last pre)" and r: "post = [] \<or> sep (hd post)" for w pre post
  proof -
    from assms dec have "pre = []"
      using l by (cases pre rule: rev_cases) auto
    moreover from assms dec have "post = []"
      using r by (cases post) auto
    ultimately show ?thesis using dec by simp
  qed
  moreover have "t \<in> words_between sep t" if "t \<noteq> []"
    unfolding words_between_def using that assms by (auto intro: exI [of _ "[]"])
  ultimately show ?thesis
    unfolding words_between_def by auto
qed

lemma words_between_separator:
  assumes c: "sep c" and cur: "\<forall>x \<in> set cur. \<not> sep x"
  shows "words_between sep (cur @ c # cs) =
           (if cur = [] then {} else {cur}) \<union> words_between sep cs"
proof (intro equalityI subsetI)
  fix w assume "w \<in> words_between sep (cur @ c # cs)"
  then obtain pre post where w: "w \<noteq> []" "\<forall>x \<in> set w. \<not> sep x"
    and dec: "cur @ c # cs = pre @ w @ post"
    and l: "pre = [] \<or> sep (last pre)" and r: "post = [] \<or> sep (hd post)"
    unfolding words_between_def by blast
  from dec consider us where "cur = pre @ us" "us @ c # cs = w @ post"
    | us where "cur @ us = pre" "c # cs = us @ w @ post"
    by (auto simp: append_eq_append_conv2)
  then show "w \<in> (if cur = [] then {} else {cur}) \<union> words_between sep cs"
  proof cases
    case 1
    with cur l have pre: "pre = []"
      by (cases pre rule: rev_cases) auto
    with 1 have eq: "cur @ c # cs = w @ post" by simp
    then consider vs where "cur = w @ vs" "vs @ c # cs = post"
      | vs where "cur @ vs = w" "c # cs = vs @ post"
      by (auto simp: append_eq_append_conv2)
    then have "w = cur"
    proof cases
      case 1
      with cur r have "vs = []" by (cases vs) auto
      with 1 show ?thesis by simp
    next
      case 2
      with w c have "vs = []" by (cases vs) auto
      with 2 show ?thesis by simp
    qed
    with w show ?thesis by auto
  next
    case 2
    from 2 w c obtain us' where us: "us = c # us'" "cs = us' @ w @ post"
      by (cases us; cases w) auto
    with 2 have "pre = cur @ c # us'" by simp
    with l c have "us' = [] \<or> sep (last us')" by (cases us' rule: rev_cases) auto
    with us w r have "w \<in> words_between sep cs"
      unfolding words_between_def by blast
    then show ?thesis by simp
  qed
next
  fix w assume "w \<in> (if cur = [] then {} else {cur}) \<union> words_between sep cs"
  then consider "cur \<noteq> []" "w = cur" | "w \<in> words_between sep cs"
    by (auto split: if_splits)
  then show "w \<in> words_between sep (cur @ c # cs)"
  proof cases
    case 1
    from c have "cur @ c # cs = [] @ cur @ (c # cs) \<and> ([] = [] \<or> sep (last [])) \<and>
        (c # cs = [] \<or> sep (hd (c # cs)))"
      by simp
    then have "\<exists>pre post. cur @ c # cs = pre @ cur @ post \<and> (pre = [] \<or> sep (last pre)) \<and>
        (post = [] \<or> sep (hd post))"
      by blast
    with 1 cur show ?thesis
      unfolding words_between_def by simp
  next
    case 2
    then obtain pre post where w: "w \<noteq> []" "\<forall>x \<in> set w. \<not> sep x"
      and dec: "cs = pre @ w @ post"
      and l: "pre = [] \<or> sep (last pre)" and r: "post = [] \<or> sep (hd post)"
      unfolding words_between_def by blast
    from dec have "cur @ c # cs = (cur @ c # pre) @ w @ post" by simp
    moreover from l c have "sep (last (cur @ c # pre))" by auto
    ultimately show ?thesis
      unfolding words_between_def using w r by blast
  qed
qed

lemma set_split_whitespace:
  "\<forall>x \<in> set cur. \<not> sep x \<Longrightarrow>
   set (split_whitespace sep cur s) = words_between sep (cur @ s)"
proof (induction s arbitrary: cur)
  case Nil
  then show ?case by (simp add: words_between_plain)
next
  case (Cons c cs)
  show ?case
  proof (cases "sep c")
    case True
    have "set (split_whitespace sep [] cs) = words_between sep cs"
      using Cons.IH [of "[]"] by simp
    with True Cons.prems show ?thesis
      by (simp add: words_between_separator)
  next
    case False
    with Cons.prems have "set (split_whitespace sep (cur @ [c]) cs) =
        words_between sep ((cur @ [c]) @ cs)"
      by (intro Cons.IH) auto
    with False show ?thesis by simp
  qed
qed

lemma map_filter_comprehension: "map f (filter P xs) = [f c. c \<leftarrow> xs, P c]"
  by (induction xs) auto

lemma terms_of_reference: "terms_of U text = reference_terms U text"
proof -
  have "set (split_whitespace (str_isspace U) [] s) = words_between (str_isspace U) s" for s
    using set_split_whitespace [of "[]" "str_isspace U" s] by simp
  then show ?thesis
    unfolding terms_of_def reference_terms_def py_split_def replace_hyphens_def re_sub_strip_def
    by (simp only: map_filter_comprehension)
qed

lemma score_insights_eq:
  "score_insights U (terms_of U q) al =
     map (\<lambda>i. (overlap_score U q i, i)) (filter (\<lambda>i. 0 < overlap_score U q i) (map snd al))"
  by (induction al) (auto simp: overlap_score_def terms_of_reference Let_def)

lemma sort_reverse_eq: "sort_reverse f xs = sort_key (\<lambda>x. - int (f x)) xs"
proof -
  let ?ys = "rev (sort_key f (rev xs))"
  have "sort_key (\<lambda>x. - int (f x)) xs = ?ys"
  proof (rule properties_for_sort_key)
    show "mset ?ys = mset xs" by simp
  next
    fix k assume "k \<in> set ?ys"
    have "filter (\<lambda>x. f k = f x) ?ys = rev (filter (\<lambda>x. f x = f k) (sort_key f (rev xs)))"
      by (simp add: rev_filter eq_commute)
    also have "\<dots> = rev (filter (\<lambda>x. f x = f k) (rev xs))"
      by (simp only: sort_key_stable)
    also have "\<dots> = filter (\<lambda>x. f k = f x) xs"
      by (simp add: rev_filter eq_commute)
    finally show "filter (\<lambda>x. - int (f k) = - int (f x)) ?ys = filter (\<lambda>x. - int (f k) = - int (f x)) xs"
      by simp
  next
    have "sorted (map f (sort_key f (rev xs)))" by simp
    then have "sorted_wrt (\<lambda>x y. f x \<le> f y) (sort_key f (rev xs))"
      by (simp add: sorted_map)
    then have "sorted_wrt (\<lambda>x y. - int (f x) \<le> - int (f y)) ?ys"
      by (simp add: sorted_wrt_rev)
    then show "sorted (map (\<lambda>x. - int (f x)) ?ys)"
      by (simp add: sorted_map)
  qed
  then show ?thesis by (simp add: sort_reverse_def)
qed

lemma insort_key_tagged:
  assumes "\<forall>p \<in> set ps. fst p = f (snd p)"
  shows "map snd (insort_key (\<lambda>p. g (fst p)) (f a, a) ps) =
           insort_key (\<lambda>x. g (f x)) a (map snd ps)"
  using assms by (induction ps) simp_all

lemma sort_key_tagged:
  "map snd (sort_key (\<lambda>p. g (fst p)) (map (\<lambda>x. (f x, x)) xs)) = sort_key (\<lambda>x. g (f x)) xs"
proof (induction xs)
  case Nil
  show ?case by simp
next
  case (Cons a xs)
  let ?tagged = "sort_key (\<lambda>p. g (fst p)) (map (\<lambda>x. (f x, x)) xs)"
  have "\<forall>p \<in> set ?tagged. fst p = f (snd p)"
    by auto
  then have "map snd (insort_key (\<lambda>p. g (fst p)) (f a, a) ?tagged) =
      insort_key (\<lambda>x. g (f x)) a (map snd ?tagged)"
    by (rule insort_key_tagged)
  with Cons.IH show ?case by simp
qed

lemma reference_ranking_unique:
  assumes "reference_ranking U q stored ranked"
  shows "ranked = sort_key (\<lambda>i. - int (overlap_score U q i)) (filter (\<lambda>i. 0 < overlap_score U q i) stored)"
proof (rule sym, rule properties_for_sort_key)
  from assms show "mset ranked = mset (filter (\<lambda>i. 0 < overlap_score U q i) stored)"
    by (simp add: reference_ranking_def)
next
  fix k assume k: "k \<in> set ranked"
  from assms have "mset ranked = mset (filter (\<lambda>i. 0 < overlap_score U q i) stored)"
    by (simp add: reference_ranking_def)
  then have "set ranked = set (filter (\<lambda>i. 0 < overlap_score U q i) stored)"
    by (rule mset_eq_setD)
  with k have pos: "0 < overlap_score U q k" by simp
  have keys: "(- int (overlap_score U q k) = - int (overlap_score U q x)) =
      (overlap_score U q x = overlap_score U q k)" for x
    by auto
  from assms have "filter (\<lambda>i. overlap_score U q i = overlap_score U q k) ranked =
      filter (\<lambda>i. overlap_score U q i = overlap_score U q k \<and> 0 < overlap_score U q k) stored"
    unfolding reference_ranking_def by blast
  also from pos have "\<dots> = filter (\<lambda>i. overlap_score U q i = overlap_score U q k)
      (filter (\<lambda>i. 0 < overlap_score U q i) stored)"
    by (induction stored) simp_all
  finally show "filter (\<lambda>x. - int (overlap_score U q k) = - int (overlap_score U q x)) ranked =
      filter (\<lambda>x. - int (overlap_score U q k) = - int (overlap_score U q x))
        (filter (\<lambda>i. 0 < overlap_score U q i) stored)"
    by (simp only: keys)
next
  from assms have "sorted_wrt (\<lambda>i j. overlap_score U q j \<le> overlap_score U q i) ranked"
    by (simp add: reference_ranking_def)
  then show "sorted (map (\<lambda>i. - int (overlap_score U q i)) ranked)"
    by (simp add: sorted_map)
qed

lemma reference_ranking_exists:
  "reference_ranking U q stored
     (sort_key (\<lambda>i. - int (overlap_score U q i)) (filter (\<lambda>i. 0 < overlap_score U q i) stored))"
proof -
  let ?g = "\<lambda>i. - int (overlap_score U q i)"
  let ?pos = "filter (\<lambda>i. 0 < overlap_score U q i) stored"
  have "sorted (map ?g (sort_key ?g ?pos))" by simp
  then have desc: "sorted_wrt (\<lambda>i j. overlap_score U q j \<le> overlap_score U q i) (sort_key ?g ?pos)"
    by (simp add: sorted_map)
  have stable: "filter (\<lambda>i. overlap_score U q i = k) (sort_key ?g ?pos) =
      filter (\<lambda>i. overlap_score U q i = k \<and> 0 < k) stored" for k
  proof -
    have "filter (\<lambda>i. overlap_score U q i = k) (sort_key ?g ?pos) =
        filter (\<lambda>i. ?g i = - int k) (sort_key ?g ?pos)"
      by (rule filter_cong) auto
    also have "\<dots> = filter (\<lambda>i. ?g i = - int k) ?pos"
      by (simp only: sort_key_stable)
    also have "\<dots> = filter (\<lambda>i. overlap_score U q i = k \<and> 0 < k) stored"
      by (induction stored) auto
    finally show ?thesis .
  qed
  show ?thesis
    unfolding reference_ranking_def using desc stable by simp
qed

lemma resolve_pathways_length:
  "length (fst (resolve_pathways s xs)) = length (snd (resolve_pathways s xs))"
  by (induction xs) (auto split: option.splits)

lemma resolve_pathways_fst:
  "fst (resolve_pathways s xs) =
     filter (\<lambda>i. get_policy_pathway s (source_pathway_id i) \<noteq> None) xs"
  by (induction xs) (auto split: option.splits)

lemma resolve_pathways_aligned:
  "map (\<lambda>i. get_policy_pathway s (source_pathway_id i)) (fst (resolve_pathways s xs)) =
     map Some (snd (resolve_pathways s xs))"
  by (induction xs) (auto split: option.splits)

lemma resolve_pathways_nth:
  assumes "j < length (fst (resolve_pathways s xs))"
  shows "get_policy_pathway s (source_pathway_id (fst (resolve_pathways s xs) ! j)) =
           Some (snd (resolve_pathways s xs) ! j)"
proof -
  have "map (\<lambda>i. get_policy_pathway s (source_pathway_id i)) (fst (resolve_pathways s xs)) ! j =
      map Some (snd (resolve_pathways s xs)) ! j"
    by (simp only: resolve_pathways_aligned)
  with assms show ?thesis by (simp add: resolve_pathways_length)
qed

lemma length_slice_to: "0 < k \<Longrightarrow> length (slice_to k xs) \<le> nat k"
  by (simp add: slice_to_def)

lemma length_top_insights: "0 < k \<Longrightarrow> length (top_insights U q s k) \<le> nat k"
  by (simp add: top_insights_def Let_def length_slice_to)

lemma overlap_score_terms_of:
  "overlap_score U query insight = card (terms_of U query \<inter> terms_of U (content insight))"
  by (simp add: overlap_score_def terms_of_reference)

lemma sample_scores:
  "overlap_score ascii_tables ''Beta alpha'' sample_insight_a = 2"
  "overlap_score ascii_tables ''Beta alpha'' sample_orphan = 2"
  "overlap_score ascii_tables ''Beta alpha'' sample_insight_b = 1"
  "overlap_score ascii_tables ''Beta alpha'' sample_insight_z = 0"
  unfolding overlap_score_terms_of by code_simp+


text \<open>
  Claim C1. For every query, every store and every \<open>top_k > 0\<close>, whatever Python's Unicode
  tables are: the term set that the code computes for a text (lower-cased, stripped of
  every character but word characters, white space and the hyphen, hyphens turned into
  blanks, split at white space) is the term set of the specification, for the query and
  for every content alike; with the score of an insight the size of the intersection of
  its term set with that of the query, the insights that the retrieval takes, before it
  resolves their pathways, are the first \<open>top_k\<close> of the reference ranking: insights of
  score 0 left out, the rest descending by score, ties in the order of iteration. Such a
  ranking exists, and every list that is one has the retrieval's choice as its first
  \<open>top_k\<close> elements; the insights returned are those of that choice whose source pathway
  the store holds.
\<close>

theorem top_insights_reference:
  assumes "0 < top_k"
  shows "(\<forall>t. terms_of U t = reference_terms U t) \<and>
         (\<exists>ranked. reference_ranking U query (map snd (insights s)) ranked) \<and>
         (\<forall>ranked. reference_ranking U query (map snd (insights s)) ranked \<longrightarrow>
            top_insights U query s top_k = take (nat top_k) ranked \<and>
            fst (retrieve_relevant_items_from_store U query s top_k) =
              filter (\<lambda>i. get_policy_pathway s (source_pathway_id i) \<noteq> None)
                (take (nat top_k) ranked))"
proof (intro conjI allI impI)
  fix t
  show "terms_of U t = reference_terms U t"
    by (rule terms_of_reference)
next
  show "\<exists>ranked. reference_ranking U query (map snd (insights s)) ranked"
    using reference_ranking_exists by blast
next
  fix ranked assume "reference_ranking U query (map snd (insights s)) ranked"
  then have r: "ranked = sort_key (\<lambda>i. - int (overlap_score U query i))
      (filter (\<lambda>i. 0 < overlap_score U query i) (map snd (insights s)))"
    by (rule reference_ranking_unique)
  have "top_insights U query s top_k =
      map snd (take (nat top_k) (sort_key (\<lambda>p. - int (fst p))
        (map (\<lambda>i. (overlap_score U query i, i))
           (filter (\<lambda>i. 0 < overlap_score U query i) (map snd (insights s))))))"
    using assms by (simp add: top_insights_def Let_def score_insights_eq sort_reverse_eq slice_to_def)
  also have "\<dots> = take (nat top_k) ranked"
    by (simp only: r take_map [symmetric] sort_key_tagged [where g = "\<lambda>n. - int n" and f = "overlap_score U query"])
  finally show top: "top_insights U query s top_k = take (nat top_k) ranked" .
  from assms have "fst (retrieve_relevant_items_from_store U query s top_k) =
      fst (resolve_pathways s (top_insights U query s top_k))"
    by (simp add: retrieve_relevant_items_from_store_def)
  also have "\<dots> = filter (\<lambda>i. get_policy_pathway s (source_pathway_id i) \<noteq> None)
      (top_insights U query s top_k)"
    by (rule resolve_pathways_fst)
  finally show "fst (retrieve_relevant_items_from_store U query s top_k) =
      filter (\<lambda>i. get_policy_pathway s (source_pathway_id i) \<noteq> None) (take (nat top_k) ranked)"
    by (simp only: top)
qed

theorem top_insights_reference_witness:
  "(0::int) < 2 \<and>
   reference_terms ascii_tables ''Alpha-fold, beta!'' = {''alpha'', ''fold'', ''beta''} \<and>
   reference_ranking ascii_tables ''Beta alpha'' (map snd (insights retrieval_store))
     [sample_insight_a, sample_orphan, sample_insight_b] \<and>
   top_insights ascii_tables ''Beta alpha'' retrieval_store 2 = [sample_insight_a, sample_orphan] \<and>
   fst (retrieve_relevant_items_from_store ascii_tables ''Beta alpha'' retrieval_store 2) = [sample_insight_a]"
proof -
  have stored: "map snd (insights retrieval_store) =
      [sample_insight_b, sample_insight_z, sample_insight_a, sample_orphan]"
    by (simp add: retrieval_store_def)
  have ranked: "reference_ranking ascii_tables ''Beta alpha'' (map snd (insights retrieval_store))
      [sample_insight_a, sample_orphan, sample_insight_b]"
    unfolding reference_ranking_def stored by (auto simp: sample_scores)
  have held: "get_policy_pathway retrieval_store (source_pathway_id sample_insight_a) \<noteq> None"
    and orphan: "get_policy_pathway retrieval_store (source_pathway_id sample_orphan) = None"
    by (simp_all add: get_policy_pathway_def retrieval_store_def sample_orphan_def sample_insight_a_def)
  have "terms_of ascii_tables ''Alpha-fold, beta!'' = {''alpha'', ''fold'', ''beta''}"
    by code_simp
  with top_insights_reference [of 2 ascii_tables "''Beta alpha''" retrieval_store]
  have tset: "reference_terms ascii_tables ''Alpha-fold, beta!'' = {''alpha'', ''fold'', ''beta''}"
    by simp
  from top_insights_reference [of 2 ascii_tables "''Beta alpha''" retrieval_store] ranked
  have "top_insights ascii_tables ''Beta alpha'' retrieval_store 2 =
      take (nat 2) [sample_insight_a, sample_orphan, sample_insight_b] \<and>
    fst (retrieve_relevant_items_from_store ascii_tables ''Beta alpha'' retrieval_store 2) =
      filter (\<lambda>i. get_policy_pathway retrieval_store (source_pathway_id i) \<noteq> None)
        (take (nat 2) [sample_insight_a, sample_orphan, sample_insight_b])"
    by simp
  with ranked held orphan tset show ?thesis by simp
qed

text \<open>
  Claim C2. The two lists that the retrieval returns have the same length; at every index
  the pathway is the one that the store holds under the source pathway id of the insight;
  the lists have at most \<open>top_k\<close> elements (none when \<open>top_k\<close> is not positive); for
  \<open>top_k > 0\<close> the insights returned are the top insights whose source pathway is in the
  store, in their order, the others dropped; and for \<open>top_k \<le> 0\<close> both lists are empty.
\<close>

theorem retrieve_lists_aligned:
  "length (fst (retrieve_relevant_items_from_store U query s top_k)) =
     length (snd (retrieve_relevant_items_from_store U query s top_k)) \<and>
   (\<forall>j < length (fst (retrieve_relevant_items_from_store U query s top_k)).
      get_policy_pathway s
        (source_pathway_id (fst (retrieve_relevant_items_from_store U query s top_k) ! j)) =
      Some (snd (retrieve_relevant_items_from_store U query s top_k) ! j)) \<and>
   int (length (fst (retrieve_relevant_items_from_store U query s top_k))) \<le> max 0 top_k \<and>
   (0 < top_k \<longrightarrow>
      fst (retrieve_relevant_items_from_store U query s top_k) =
        filter (\<lambda>i. get_policy_pathway s (source_pathway_id i) \<noteq> None)
          (top_insights U query s top_k)) \<and>
   (top_k \<le> 0 \<longrightarrow> retrieve_relevant_items_from_store U query s top_k = ([], []))"
proof (cases "top_k \<le> 0")
  case True
  then show ?thesis by (simp add: retrieve_relevant_items_from_store_def)
next
  case False
  let ?top = "top_insights U query s top_k"
  have r: "retrieve_relevant_items_from_store U query s top_k = resolve_pathways s ?top"
    using False by (simp add: retrieve_relevant_items_from_store_def)
  have same: "length (fst (resolve_pathways s ?top)) = length (snd (resolve_pathways s ?top))"
    by (rule resolve_pathways_length)
  have aligned: "\<forall>j < length (fst (resolve_pathways s ?top)).
      get_policy_pathway s (source_pathway_id (fst (resolve_pathways s ?top) ! j)) =
      Some (snd (resolve_pathways s ?top) ! j)"
    by (simp add: resolve_pathways_nth)
  have kept: "fst (resolve_pathways s ?top) =
      filter (\<lambda>i. get_policy_pathway s (source_pathway_id i) \<noteq> None) ?top"
    by (rule resolve_pathways_fst)
  have "length (fst (resolve_pathways s ?top)) \<le> length ?top"
    by (simp only: kept length_filter_le)
  also have "\<dots> \<le> nat top_k"
    using False by (simp add: length_top_insights)
  finally have bound: "int (length (fst (resolve_pathways s ?top))) \<le> max 0 top_k"
    by simp
  from False same aligned kept bound show ?thesis
    unfolding r by blast
qed

theorem retrieve_lists_aligned_witness:
  "retrieve_relevant_items_from_store ascii_tables ''Beta alpha'' retrieval_store 2 =
     ([sample_insight_a], [sample_pathway]) \<and>
   top_insights ascii_tables ''Beta alpha'' retrieval_store 2 = [sample_insight_a, sample_orphan] \<and>
   get_policy_pathway retrieval_store (source_pathway_id sample_orphan) = None \<and>
   get_policy_pathway retrieval_store (source_pathway_id sample_insight_a) = Some sample_pathway \<and>
   retrieve_relevant_items_from_store ascii_tables ''Beta alpha'' retrieval_store 0 = ([], []) \<and>
   retrieve_relevant_items_from_store ascii_tables ''Beta alpha'' retrieval_store (- 3) = ([], [])"
proof -
  have top: "top_insights ascii_tables ''Beta alpha'' retrieval_store 2 = [sample_insight_a, sample_orphan]"
    by code_simp
  have orphan: "get_policy_pathway retrieval_store (source_pathway_id sample_orphan) = None"
    and linked: "get_policy_pathway retrieval_store (source_pathway_id sample_insight_a) \<noteq> None"
    by (simp_all add: get_policy_pathway_def retrieval_store_def sample_orphan_def sample_insight_a_def)
  from retrieve_lists_aligned [of ascii_tables "''Beta alpha''" retrieval_store 2] top orphan linked
  have kept: "fst (retrieve_relevant_items_from_store ascii_tables ''Beta alpha'' retrieval_store 2) = [sample_insight_a]"
    by simp
  with retrieve_lists_aligned [of ascii_tables "''Beta alpha''" retrieval_store 2]
  have "length (snd (retrieve_relevant_items_from_store ascii_tables ''Beta alpha'' retrieval_store 2)) = 1"
    and "get_policy_pathway retrieval_store (source_pathway_id sample_insight_a) =
      Some (snd (retrieve_relevant_items_from_store ascii_tables ''Beta alpha'' retrieval_store 2) ! 0)"
    by simp_all
  moreover have "get_policy_pathway retrieval_store (source_pathway_id sample_insight_a) = Some sample_pathway"
    by (simp add: get_policy_pathway_def retrieval_store_def sample_insight_a_def)
  ultimately have "snd (retrieve_relevant_items_from_store ascii_tables ''Beta alpha'' retrieval_store 2) = [sample_pathway]"
    by (cases "snd (retrieve_relevant_items_from_store ascii_tables ''Beta alpha'' retrieval_store 2)") simp_all
  with kept have two: "retrieve_relevant_items_from_store ascii_tables ''Beta alpha'' retrieval_store 2 =
      ([sample_insight_a], [sample_pathway])"
    by (simp add: prod_eq_iff)
  from retrieve_lists_aligned [of ascii_tables "''Beta alpha''" retrieval_store 0]
    retrieve_lists_aligned [of ascii_tables "''Beta alpha''" retrieval_store "- 3"]
  have none: "retrieve_relevant_items_from_store ascii_tables ''Beta alpha'' retrieval_store 0 = ([], [])"
    "retrieve_relevant_items_from_store ascii_tables ''Beta alpha'' retrieval_store (- 3) = ([], [])"
    by simp_all
  from two top orphan none
    \<open>get_policy_pathway retrieval_store (source_pathway_id sample_insight_a) = Some sample_pathway\<close>
  show ?thesis by simp
qed

section \<open>Properties of the reflection pipeline\<close>

text \<open>
  Claim C8. With an empty trajectory \<^verbatim>\<open>update_memory\<close> returns \<^verbatim>\<open>(None, None, [])\<close>, whatever
  the outcome sign and the agent's mode; both stores, and the state of the process, are
  as they were, and no exception is raised.
\<close>

theorem update_memory_empty_trajectory:
  "update_memory L llm_simulation_mode [] result hdpm_instance w =
     (Inr (None, None, []), hdpm_instance, w)"
  by (simp add: update_memory_def)

lemma distill_simple_keywords:
  "fst (distill L ''simple_keywords'' p s r w) =
     map_sum id (\<lambda>c. \<lparr>insight_id = ''insight_'' @ uuid4 L (uuid_count w), content = c,
                       source_pathway_id = pathway_id p\<rparr>)
       (distill_insight_content_simple_keywords L p s r)"
  unfolding distill_def draw_uuid_def
  by (cases "distill_insight_content_simple_keywords L p s r") simp_all

lemma distill_keywords_content:
  "map_sum id content (fst (distill L ''simple_keywords'' p s r w)) =
     distill_insight_content_simple_keywords L p s r"
  by (cases "distill_insight_content_simple_keywords L p s r")
     (simp_all add: distill_simple_keywords)

lemma distill_random_choice:
  "map_sum id content (fst (distill L ''random_choice'' p s r w)) =
     fst (distill_insight_content_random_choice L p s r w)"
  unfolding distill_def draw_uuid_def
  by (cases "distill_insight_content_random_choice L p s r w";
      cases "fst (distill_insight_content_random_choice L p s r w)") simp_all

lemma random_choice_content:
  assumes "rng_state w1 = rng_state w2" "randbelow L1 = randbelow L2"
  shows "fst (distill_insight_content_random_choice L1 p s r w1) =
         fst (distill_insight_content_random_choice L2 p s r w2)"
proof (cases "get_evidence_cards_for_pathway s (pathway_id p)")
  case (Inl e)
  then show ?thesis by (simp add: distill_insight_content_random_choice_def)
next
  case (Inr cards)
  then show ?thesis
    using assms
    by (cases "randbelow L2 (rng_state w2) (length cards)")
       (simp add: distill_insight_content_random_choice_def)
qed

lemma scan_card_set_order: "scan_card (L\<lparr>set_order := f\<rparr>) c kw = scan_card L c kw"
proof -
  have same: "tables (L\<lparr>set_order := f\<rparr>) = tables L" by simp
  show ?thesis unfolding scan_card_def same by (rule refl)
qed

lemma scan_cards_set_order: "scan_cards (L\<lparr>set_order := f\<rparr>) cards kw = scan_cards L cards kw"
  by (induction cards arbitrary: kw) (simp_all add: scan_card_set_order)

lemma compose_keywords_first_tool:
  assumes "take 1 (f (kw_tool_used (scan_cards L cards
      \<lparr>kw_success = [], kw_failure = [], kw_tool_used = [], kw_critical_feedback = []\<rparr>))) =
    take 1 (g (kw_tool_used (scan_cards L cards
      \<lparr>kw_success = [], kw_failure = [], kw_tool_used = [], kw_critical_feedback = []\<rparr>)))"
  shows "compose_keywords (L\<lparr>set_order := f\<rparr>) cards r = compose_keywords (L\<lparr>set_order := g\<rparr>) cards r"
proof -
  have pick: "set_order (L\<lparr>set_order := h\<rparr>) = h" for h by simp
  show ?thesis
    unfolding compose_keywords_def Let_def scan_cards_set_order pick assms by (rule refl)
qed

lemma distinct_singleton_set:
  assumes "distinct ys" "set ys = {a}"
  shows "ys = [a]"
proof (cases ys)
  case Nil
  with assms show ?thesis by simp
next
  case (Cons y zs)
  with assms have "y = a" and "set zs \<subseteq> {a}" and "a \<notin> set zs"
    by auto
  then have "zs = []" by (cases zs) auto
  with Cons \<open>y = a\<close> show ?thesis by simp
qed

lemma set_iteration_first:
  assumes "set_iteration f" "set_iteration g" "length (remdups xs) \<le> 1"
  shows "take 1 (f xs) = take 1 (g xs)"
proof -
  have one: "h xs = remdups xs" if "set_iteration h" for h
  proof -
    from that have s: "set (h xs) = set xs" and d: "distinct (h xs)"
      by (simp_all add: set_iteration_def)
    show ?thesis
    proof (cases "remdups xs")
      case Nil
      then have "set xs = {}" by (metis set_remdups list.set(1))
      with s Nil show ?thesis by simp
    next
      case (Cons a as)
      with assms(3) have r: "remdups xs = [a]" by simp
      then have "set (remdups xs) = {a}" by simp
      then have "set xs = {a}" by simp
      with s d have "h xs = [a]" by (intro distinct_singleton_set) simp_all
      with r show ?thesis by simp
    qed
  qed
  from one [OF assms(1)] one [OF assms(2)] show ?thesis by simp
qed


lemma keywords_content_first_tool:
  assumes "set_iteration f" "set_iteration g"
    "length (remdups (collected_tools L s (pathway_id p))) \<le> 1"
  shows "distill_insight_content_simple_keywords (L\<lparr>set_order := f\<rparr>) p s r =
         distill_insight_content_simple_keywords (L\<lparr>set_order := g\<rparr>) p s r"
proof (cases "get_evidence_cards_for_pathway s (pathway_id p)")
  case (Inl e)
  then show ?thesis by (simp add: distill_insight_content_simple_keywords_def)
next
  case (Inr cards)
  with assms(3) have "length (remdups (kw_tool_used (scan_cards L cards
      \<lparr>kw_success = [], kw_failure = [], kw_tool_used = [], kw_critical_feedback = []\<rparr>))) \<le> 1"
    by (simp add: collected_tools_def)
  with assms(1,2) have "take 1 (f (kw_tool_used (scan_cards L cards
      \<lparr>kw_success = [], kw_failure = [], kw_tool_used = [], kw_critical_feedback = []\<rparr>))) =
    take 1 (g (kw_tool_used (scan_cards L cards
      \<lparr>kw_success = [], kw_failure = [], kw_tool_used = [], kw_critical_feedback = []\<rparr>)))"
    by (rule set_iteration_first)
  then have "compose_keywords (L\<lparr>set_order := f\<rparr>) cards r =
      compose_keywords (L\<lparr>set_order := g\<rparr>) cards r"
    by (rule compose_keywords_first_tool)
  with Inr show ?thesis by (simp add: distill_insight_content_simple_keywords_def)
qed

text \<open>
  Claim C9, as the code has it. The claim says that the keyword strategy always gives the
  same content for a fixed pathway, store and outcome. The strategy names one tool, the
  first of \<^verbatim>\<open>list(set(tool_used))\<close>, and the order in which Python iterates a set of strings
  follows the hash seed of the process. For a pathway whose assistant cards name two
  tools, two iteration orders of the same set give two contents.
\<close>

theorem distill_content_order_counterexample:
  "set_iteration (set_order sample_lib) \<and> set_iteration (set_order reversed_sets_lib) \<and>
   map_sum id content
     (fst (distill sample_lib ''simple_keywords'' tools_pathway tools_store 1 sample_world)) =
     Inr ''Success Principle: Tools of note: ToolA. '' \<and>
   map_sum id content
     (fst (distill reversed_sets_lib ''simple_keywords'' tools_pathway tools_store 1 sample_world)) =
     Inr ''Success Principle: Tools of note: ToolB. ''"
proof -
  have "set_iteration (set_order sample_lib)" "set_iteration (set_order reversed_sets_lib)"
    by (simp_all add: set_iteration_def sample_lib_def reversed_sets_lib_def)
  moreover have "map_sum id content
      (fst (distill sample_lib ''simple_keywords'' tools_pathway tools_store 1 sample_world)) =
      Inr ''Success Principle: Tools of note: ToolA. ''"
    by code_simp
  moreover have "map_sum id content
      (fst (distill reversed_sets_lib ''simple_keywords'' tools_pathway tools_store 1 sample_world)) =
      Inr ''Success Principle: Tools of note: ToolB. ''"
    by code_simp
  ultimately show ?thesis by simp
qed

text \<open>
  Claim C9, amended. For a fixed pathway, store and outcome: two calls of the keyword
  strategy give the same content (or raise the same error) from any two states of the
  process when both see the same iteration order of sets, as two calls in one process do;
  they give the same content under any two iteration orders of sets when the cards of the
  pathway yield at most one distinct tool name; and two calls of the random-pick strategy
  give the same content, whatever the iteration orders, when the random source is in the
  same state at both calls. The id of the insight is drawn afresh at every call.
\<close>

theorem distill_content_deterministic:
  "map_sum id content (fst (distill L ''simple_keywords'' p s r w1)) =
     map_sum id content (fst (distill L ''simple_keywords'' p s r w2)) \<and>
   (set_iteration f \<and> set_iteration g \<and>
    length (remdups (collected_tools L s (pathway_id p))) \<le> 1 \<longrightarrow>
      map_sum id content (fst (distill (L\<lparr>set_order := f\<rparr>) ''simple_keywords'' p s r w1)) =
        map_sum id content (fst (distill (L\<lparr>set_order := g\<rparr>) ''simple_keywords'' p s r w2))) \<and>
   (rng_state w1 = rng_state w2 \<longrightarrow>
      map_sum id content (fst (distill (L\<lparr>set_order := f\<rparr>) ''random_choice'' p s r w1)) =
        map_sum id content (fst (distill (L\<lparr>set_order := g\<rparr>) ''random_choice'' p s r w2)))"
proof (intro conjI impI)
  show "map_sum id content (fst (distill L ''simple_keywords'' p s r w1)) =
      map_sum id content (fst (distill L ''simple_keywords'' p s r w2))"
    by (simp only: distill_keywords_content)
next
  assume "set_iteration f \<and> set_iteration g \<and>
      length (remdups (collected_tools L s (pathway_id p))) \<le> 1"
  then have "distill_insight_content_simple_keywords (L\<lparr>set_order := f\<rparr>) p s r =
      distill_insight_content_simple_keywords (L\<lparr>set_order := g\<rparr>) p s r"
    by (intro keywords_content_first_tool) simp_all
  then show "map_sum id content (fst (distill (L\<lparr>set_order := f\<rparr>) ''simple_keywords'' p s r w1)) =
      map_sum id content (fst (distill (L\<lparr>set_order := g\<rparr>) ''simple_keywords'' p s r w2))"
    by (simp only: distill_keywords_content)
next
  assume "rng_state w1 = rng_state w2"
  then have "fst (distill_insight_content_random_choice (L\<lparr>set_order := f\<rparr>) p s r w1) =
      fst (distill_insight_content_random_choice (L\<lparr>set_order := g\<rparr>) p s r w2)"
    by (rule random_choice_content) simp
  then show "map_sum id content (fst (distill (L\<lparr>set_order := f\<rparr>) ''random_choice'' p s r w1)) =
      map_sum id content (fst (distill (L\<lparr>set_order := g\<rparr>) ''random_choice'' p s r w2))"
    by (simp only: distill_random_choice)
qed

theorem distill_content_deterministic_witness:
  "set_iteration remdups \<and> set_iteration (\<lambda>xs. rev (remdups xs)) \<and>
   collected_tools sample_lib sample_store (pathway_id sample_pathway) = [''ToolX''] \<and>
   rng_state sample_world = rng_state other_world \<and>
   map_sum id content
     (fst (distill sample_lib ''simple_keywords'' sample_pathway sample_store 1 sample_world)) =
     Inr ''Success Principle: Context: Fold alpha. Tools of note: ToolX. '' \<and>
   map_sum id insight_id
     (fst (distill reversed_sets_lib ''simple_keywords'' sample_pathway sample_store 1 other_world)) =
     Inr ''insight_5'' \<and>
   map_sum id content
     (fst (distill reversed_sets_lib ''simple_keywords'' sample_pathway sample_store 1 other_world)) =
     Inr ''Success Principle: Context: Fold alpha. Tools of note: ToolX. '' \<and>
   map_sum id content
     (fst (distill sample_lib ''random_choice'' sample_pathway sample_store (- 1) sample_world)) =
     Inr ''Failure Trap (random pick): Fold alpha'' \<and>
   map_sum id content
     (fst (distill reversed_sets_lib ''random_choice'' sample_pathway sample_store (- 1) other_world)) =
     Inr ''Failure Trap (random pick): Fold alpha''"
proof -
  have orders: "set_iteration remdups" "set_iteration (\<lambda>xs. rev (remdups xs))"
    by (simp_all add: set_iteration_def)
  have tools: "collected_tools sample_lib sample_store (pathway_id sample_pathway) = [''ToolX'']"
    by code_simp
  have seed: "rng_state sample_world = rng_state other_world"
    by (simp add: sample_world_def other_world_def)
  have libs: "sample_lib\<lparr>set_order := remdups\<rparr> = sample_lib"
    "sample_lib\<lparr>set_order := (\<lambda>xs. rev (remdups xs))\<rparr> = reversed_sets_lib"
    by (simp_all add: sample_lib_def reversed_sets_lib_def)
  have first: "map_sum id content
      (fst (distill sample_lib ''simple_keywords'' sample_pathway sample_store 1 sample_world)) =
      Inr ''Success Principle: Context: Fold alpha. Tools of note: ToolX. ''"
    by code_simp
  have other_id: "map_sum id insight_id
      (fst (distill reversed_sets_lib ''simple_keywords'' sample_pathway sample_store 1 other_world)) =
      Inr ''insight_5''"
    by code_simp
  have pick: "map_sum id content
      (fst (distill sample_lib ''random_choice'' sample_pathway sample_store (- 1) sample_world)) =
      Inr ''Failure Trap (random pick): Fold alpha''"
    by code_simp
  note main = distill_content_deterministic
      [of sample_lib sample_pathway sample_store _ sample_world other_world remdups
          "\<lambda>xs. rev (remdups xs)"]
  have small: "length (remdups (collected_tools sample_lib sample_store (pathway_id sample_pathway))) \<le> 1"
    by (simp add: tools)
  from main [of 1] orders small
  have "map_sum id content
      (fst (distill (sample_lib\<lparr>set_order := remdups\<rparr>) ''simple_keywords'' sample_pathway
         sample_store 1 sample_world)) =
    map_sum id content
      (fst (distill (sample_lib\<lparr>set_order := (\<lambda>xs. rev (remdups xs))\<rparr>) ''simple_keywords''
         sample_pathway sample_store 1 other_world))"
    by blast
  then have "map_sum id content
      (fst (distill sample_lib ''simple_keywords'' sample_pathway sample_store 1 sample_world)) =
    map_sum id content
      (fst (distill reversed_sets_lib ''simple_keywords'' sample_pathway sample_store 1 other_world))"
    by (simp only: libs)
  with first have kw: "map_sum id content
      (fst (distill reversed_sets_lib ''simple_keywords'' sample_pathway sample_store 1 other_world)) =
      Inr ''Success Principle: Context: Fold alpha. Tools of note: ToolX. ''"
    by simp
  from main [of "- 1"] seed
  have "map_sum id content
      (fst (distill (sample_lib\<lparr>set_order := remdups\<rparr>) ''random_choice'' sample_pathway
         sample_store (- 1) sample_world)) =
    map_sum id content
      (fst (distill (sample_lib\<lparr>set_order := (\<lambda>xs. rev (remdups xs))\<rparr>) ''random_choice''
         sample_pathway sample_store (- 1) other_world))"
    by blast
  then have "map_sum id content
      (fst (distill sample_lib ''random_choice'' sample_pathway sample_store (- 1) sample_world)) =
    map_sum id content
      (fst (distill reversed_sets_lib ''random_choice'' sample_pathway sample_store (- 1) other_world))"
    by (simp only: libs)
  with pick have rc: "map_sum id content
      (fst (distill reversed_sets_lib ''random_choice'' sample_pathway sample_store (- 1) other_world)) =
      Inr ''Failure Trap (random pick): Fold alpha''"
    by simp
  from orders tools seed first other_id kw pick rc show ?thesis by simp
qed
















end
